theory Spec2Isabelle
  imports Main "HOL-Library.Word"
begin

section \<open>MedChain: the data model of the contract\<close>

text \<open>
  The contract \<^verbatim>\<open>MedChain\<close> (Solidity \<^verbatim>\<open>^0.8.19\<close>) is embedded function by function.
  An \<^verbatim>\<open>address\<close> is a 160-bit word and a \<^verbatim>\<open>uint256\<close> a 256-bit word. A Solidity
  \<^verbatim>\<open>mapping\<close> is total and reads the zero value at a key never written, so a mapping
  is a total function whose initial value is the zero value everywhere. A failed
  \<^verbatim>\<open>require\<close> reverts the call: each function returns \<open>error + result\<close>, and the
  error \<open>Inl e\<close> carries no state, since a revert undoes every write of the call.
  \<^verbatim>\<open>msg.sender\<close> and \<^verbatim>\<open>block.timestamp\<close> are the parameters \<open>sender\<close> and \<open>now\<close>.
\<close>

type_synonym address = "160 word"
type_synonym uint256 = "256 word"

text \<open>\<^verbatim>\<open>enum UserRole { None, Patient, Doctor, Admin }\<close>; \<open>None\<close> is the option
  constructor of HOL, so the first role is \<open>NoneRole\<close>.\<close>

datatype UserRole = NoneRole | Patient | Doctor | Admin

record User =
  userAddress :: address
  name :: string
  role :: UserRole
  isRegistered :: bool
  registrationTime :: uint256

record MedicalRecord =
  recordId :: uint256
  patientAddress :: address
  ipfsHash :: string
  recordType :: string
  description :: string
  timestamp :: uint256
  exists :: bool

record AccessPermission =
  doctorAddress :: address
  grantedAt :: uint256
  expiresAt :: uint256
  isActive :: bool
  purpose :: string

text \<open>The fields \<^verbatim>\<open>recordId\<close> and \<^verbatim>\<open>timestamp\<close> of \<^verbatim>\<open>struct AuditLog\<close> carry the
  prefix \<open>log\<close>: the names are taken by \<open>MedicalRecord\<close>.\<close>

record AuditLog =
  accessor :: address
  logRecordId :: uint256
  logTimestamp :: uint256
  action :: string

datatype Event =
    UserRegistered address string UserRole
  | RecordCreated uint256 address string
  | AccessGranted address address uint256
  | AccessRevoked address address
  | RecordAccessed address uint256
  | EmergencyModeToggled bool

text \<open>The storage of the contract, and the events emitted so far.\<close>

record MedChain =
  users :: "address \<Rightarrow> User"
  patientRecords :: "address \<Rightarrow> uint256 list"
  records :: "uint256 \<Rightarrow> MedicalRecord"
  permissions :: "address \<Rightarrow> address \<Rightarrow> AccessPermission"
  auditTrails :: "address \<Rightarrow> AuditLog list"
  recordCounter :: uint256
  admin :: address
  emergencyMode :: bool
  eventLog :: "Event list"

text \<open>
  One constructor for each \<^verbatim>\<open>require\<close> message of the source, and \<open>Panic\<close> for the
  revert of checked arithmetic (Solidity 0.8), of an array index out of bounds and
  of a memory allocation that is too large:
  \<^item> \<open>NotRegistered\<close>: "User not registered" (modifier \<^verbatim>\<open>onlyRegistered\<close>)
  \<^item> \<open>OnlyPatients\<close>: "Only patients allowed" (\<^verbatim>\<open>onlyPatient\<close>)
  \<^item> \<open>OnlyDoctors\<close>: "Only doctors allowed" (\<^verbatim>\<open>onlyDoctor\<close>)
  \<^item> \<open>AdminOnly\<close>: "Only admin allowed" (\<^verbatim>\<open>onlyAdmin\<close>)
  \<^item> \<open>RecordNotFound\<close>: "Record does not exist" (\<^verbatim>\<open>recordExists\<close>)
  \<^item> \<open>AlreadyRegistered\<close>: "User already registered"
  \<^item> \<open>InvalidRole\<close>: "Invalid role"
  \<^item> \<open>EmptyName\<close>: "Name cannot be empty"
  \<^item> \<open>EmptyPayloadReference\<close>: "IPFS hash required"
  \<^item> \<open>OwnRecordsOnly\<close>: "Can only check your own accessible records"
  \<^item> \<open>Unauthorized\<close>: "Unauthorized access"
  \<^item> \<open>GranteeNotDoctor\<close>: "Can only grant to doctors"
  \<^item> \<open>GranteeNotRegistered\<close>: "Doctor not registered"
  \<^item> \<open>NoActivePermission\<close>: "No active permission"
\<close>

datatype error =
    NotRegistered | OnlyPatients | OnlyDoctors | AdminOnly | RecordNotFound
  | AlreadyRegistered | InvalidRole | EmptyName | EmptyPayloadReference
  | OwnRecordsOnly | Unauthorized | GranteeNotDoctor | GranteeNotRegistered
  | NoActivePermission | Panic

text \<open>The zero values that a mapping reads at a key never written.\<close>

definition zeroUser :: User where
  "zeroUser = \<lparr>userAddress = 0, name = [], role = NoneRole, isRegistered = False,
     registrationTime = 0\<rparr>"

definition zeroRecord :: MedicalRecord where
  "zeroRecord = \<lparr>recordId = 0, patientAddress = 0, ipfsHash = [], recordType = [],
     description = [], timestamp = 0, exists = False\<rparr>"

definition zeroPermission :: AccessPermission where
  "zeroPermission = \<lparr>doctorAddress = 0, grantedAt = 0, expiresAt = 0, isActive = False,
     purpose = []\<rparr>"

text \<open>Checked addition of Solidity 0.8: the call reverts when the sum does not fit.\<close>

definition checked_add :: "uint256 \<Rightarrow> uint256 \<Rightarrow> uint256 option" where
  "checked_add a b = (if unat a + unat b < 2 ^ 256 then Some (a + b) else None)"

section \<open>The functions of the contract\<close>

definition constructor :: "address \<Rightarrow> uint256 \<Rightarrow> MedChain" where
  "constructor sender now =
     \<lparr>users = (\<lambda>_. zeroUser)(sender :=
        \<lparr>userAddress = sender, name = ''System Admin'', role = Admin,
         isRegistered = True, registrationTime = now\<rparr>),
      patientRecords = (\<lambda>_. []),
      records = (\<lambda>_. zeroRecord),
      permissions = (\<lambda>_ _. zeroPermission),
      auditTrails = (\<lambda>_. []),
      recordCounter = 0,
      admin = sender,
      emergencyMode = False,
      eventLog = []\<rparr>"

definition registerUser ::
  "MedChain \<Rightarrow> uint256 \<Rightarrow> address \<Rightarrow> string \<Rightarrow> UserRole \<Rightarrow> error + MedChain" where
  "registerUser s now sender name' role' =
     (if isRegistered (users s sender) then Inl AlreadyRegistered
      else if \<not> (role' = Patient \<or> role' = Doctor) then Inl InvalidRole
      else if \<not> length name' > 0 then Inl EmptyName
      else Inr (s\<lparr>users := (users s)(sender :=
                    \<lparr>userAddress = sender, name = name', role = role',
                     isRegistered = True, registrationTime = now\<rparr>),
                  eventLog := eventLog s @ [UserRegistered sender name' role']\<rparr>))"

definition getUserInfo :: "MedChain \<Rightarrow> address \<Rightarrow> string \<times> UserRole \<times> bool \<times> uint256" where
  "getUserInfo s userAddress' =
     (let user = users s userAddress'
      in (name user, role user, isRegistered user, registrationTime user))"

text \<open>\<^verbatim>\<open>_addAuditLog\<close> (an Isabelle name cannot start with an underscore).\<close>

definition addAuditLog :: "MedChain \<Rightarrow> uint256 \<Rightarrow> address \<Rightarrow> uint256 \<Rightarrow> string \<Rightarrow> MedChain" where
  "addAuditLog s now accessor' recordId' action' =
     s\<lparr>auditTrails := (auditTrails s)(accessor' := auditTrails s accessor' @
         [\<lparr>accessor = accessor', logRecordId = recordId', logTimestamp = now,
           action = action'\<rparr>])\<rparr>"

definition createRecord ::
  "MedChain \<Rightarrow> uint256 \<Rightarrow> address \<Rightarrow> string \<Rightarrow> string \<Rightarrow> string \<Rightarrow> error + (MedChain \<times> uint256)" where
  "createRecord s now sender ipfsHash' recordType' description' =
     (if \<not> isRegistered (users s sender) then Inl NotRegistered
      else if role (users s sender) \<noteq> Patient then Inl OnlyPatients
      else if \<not> length ipfsHash' > 0 then Inl EmptyPayloadReference
      else case checked_add (recordCounter s) 1 of
        None \<Rightarrow> Inl Panic
      | Some c \<Rightarrow>
          let s1 = s\<lparr>recordCounter := c\<rparr>;
              s2 = s1\<lparr>records := (records s1)(recordCounter s1 :=
                     \<lparr>recordId = recordCounter s1, patientAddress = sender,
                      ipfsHash = ipfsHash', recordType = recordType',
                      description = description', timestamp = now, exists = True\<rparr>)\<rparr>;
              s3 = s2\<lparr>patientRecords := (patientRecords s2)(sender :=
                     patientRecords s2 sender @ [recordCounter s2])\<rparr>;
              s4 = addAuditLog s3 now sender (recordCounter s3) ''CREATE'';
              s5 = s4\<lparr>eventLog := eventLog s4 @
                     [RecordCreated (recordCounter s4) sender recordType']\<rparr>
          in Inr (s5, recordCounter s5))"

definition getPatientRecordIds :: "MedChain \<Rightarrow> address \<Rightarrow> uint256 list" where
  "getPatientRecordIds s patient = patientRecords s patient"

text \<open>\<^verbatim>\<open>_hasAccess\<close>; the parameter \<^verbatim>\<open>_recordId\<close> is unused in the source as well.\<close>

definition hasAccess :: "MedChain \<Rightarrow> uint256 \<Rightarrow> address \<Rightarrow> address \<Rightarrow> uint256 \<Rightarrow> bool" where
  "hasAccess s now patient doctor recordId' =
     (let perm = permissions s patient doctor
      in if \<not> isActive perm then False
         else if expiresAt perm > 0 \<and> expiresAt perm \<le> now then False
         else True)"

definition checkAccess ::
  "MedChain \<Rightarrow> uint256 \<Rightarrow> address \<Rightarrow> address \<Rightarrow> bool \<times> uint256 \<times> uint256 \<times> string" where
  "checkAccess s now patient doctor =
     (let perm = permissions s patient doctor;
          isValid = (isActive perm \<and> (expiresAt perm = 0 \<or> expiresAt perm > now))
      in (isValid, grantedAt perm, expiresAt perm, purpose perm))"

text \<open>
  The first loop of \<^verbatim>\<open>getDoctorAccessibleRecords\<close>:
  \<^verbatim>\<open>for (uint256 i = 1; i <= recordCounter; i++)\<close>, on the memory array
  \<^verbatim>\<open>accessibleRecords\<close> and the counter \<^verbatim>\<open>count\<close>. A write past the end of the array
  and an overflow of \<^verbatim>\<open>i++\<close> or \<^verbatim>\<open>count++\<close> revert with a panic.
\<close>

function scanRecords ::
  "MedChain \<Rightarrow> uint256 \<Rightarrow> address \<Rightarrow> uint256 \<Rightarrow> uint256 list \<Rightarrow> uint256
     \<Rightarrow> error + (uint256 list \<times> uint256)" where
  "scanRecords s now doctor i accessibleRecords count =
     (if i \<le> recordCounter s then
        (if exists (records s i) \<and>
            hasAccess s now (patientAddress (records s i)) doctor i
         then
           (if unat count < length accessibleRecords then
              (case checked_add count 1 of
                 None \<Rightarrow> Inl Panic
               | Some count' \<Rightarrow>
                   (case checked_add i 1 of
                      None \<Rightarrow> Inl Panic
                    | Some i' \<Rightarrow>
                        scanRecords s now doctor i'
                          (accessibleRecords[unat count := i]) count'))
            else Inl Panic)
         else
           (case checked_add i 1 of
              None \<Rightarrow> Inl Panic
            | Some i' \<Rightarrow> scanRecords s now doctor i' accessibleRecords count))
      else Inr (accessibleRecords, count))"
  by pat_completeness auto

termination scanRecords
  by (relation "measure (\<lambda>(s, now, doctor, i, accessibleRecords, count).
        Suc (unat (recordCounter s)) - unat i)")
     (auto simp: checked_add_def unat_word_ariths word_le_nat_alt split: if_splits)

text \<open>
  The second loop: \<^verbatim>\<open>for (uint256 i = 0; i < count; i++) result[i] = accessibleRecords[i]\<close>.
\<close>

function copyRecords ::
  "uint256 list \<Rightarrow> uint256 \<Rightarrow> uint256 \<Rightarrow> uint256 list \<Rightarrow> error + uint256 list" where
  "copyRecords accessibleRecords count i result =
     (if i < count then
        (if unat i < length result \<and> unat i < length accessibleRecords then
           (case checked_add i 1 of
              None \<Rightarrow> Inl Panic
            | Some i' \<Rightarrow>
                copyRecords accessibleRecords count i'
                  (result[unat i := accessibleRecords ! unat i]))
         else Inl Panic)
      else Inr result)"
  by pat_completeness auto

termination copyRecords
  by (relation "measure (\<lambda>(accessibleRecords, count, i, result). unat count - unat i)")
     (auto simp: checked_add_def unat_word_ariths word_less_nat_alt split: if_splits)

text \<open>
  \<^verbatim>\<open>new uint256[](n)\<close>: a memory array of \<open>n\<close> zeros. The allocation reverts with a
  panic (code 0x41) when \<open>n\<close> exceeds \<open>2 ^ 64 - 1\<close>.
\<close>

definition newArray :: "uint256 \<Rightarrow> uint256 list option" where
  "newArray n = (if unat n > 2 ^ 64 - 1 then None else Some (replicate (unat n) 0))"

definition getDoctorAccessibleRecords ::
  "MedChain \<Rightarrow> uint256 \<Rightarrow> address \<Rightarrow> address \<Rightarrow> error + uint256 list" where
  "getDoctorAccessibleRecords s now sender doctor =
     (if role (users s sender) \<noteq> Doctor then Inl OnlyDoctors
      else if doctor \<noteq> sender then Inl OwnRecordsOnly
      else case newArray (recordCounter s) of
        None \<Rightarrow> Inl Panic
      | Some accessibleRecords0 \<Rightarrow>
          (case scanRecords s now doctor 1 accessibleRecords0 0 of
             Inl e \<Rightarrow> Inl e
           | Inr (accessibleRecords, count) \<Rightarrow>
               (case newArray count of
                  None \<Rightarrow> Inl Panic
                | Some result \<Rightarrow> copyRecords accessibleRecords count 0 result)))"

definition getRecord ::
  "MedChain \<Rightarrow> uint256 \<Rightarrow> address \<Rightarrow> uint256
     \<Rightarrow> error + (address \<times> string \<times> string \<times> string \<times> uint256)" where
  "getRecord s now sender recordId' =
     (if \<not> exists (records s recordId') then Inl RecordNotFound
      else let record = records s recordId'
           in if \<not> (sender = patientAddress record \<or>
                     hasAccess s now (patientAddress record) sender recordId' \<or>
                     (emergencyMode s \<and> role (users s sender) = Doctor) \<or>
                     sender = admin s)
              then Inl Unauthorized
              else Inr (patientAddress record, ipfsHash record, recordType record,
                        description record, timestamp record))"

definition grantAccess ::
  "MedChain \<Rightarrow> uint256 \<Rightarrow> address \<Rightarrow> address \<Rightarrow> uint256 \<Rightarrow> string \<Rightarrow> error + MedChain" where
  "grantAccess s now sender doctor expiryDuration purpose' =
     (if \<not> isRegistered (users s sender) then Inl NotRegistered
      else if role (users s sender) \<noteq> Patient then Inl OnlyPatients
      else if role (users s doctor) \<noteq> Doctor then Inl GranteeNotDoctor
      else if \<not> isRegistered (users s doctor) then Inl GranteeNotRegistered
      else case (if expiryDuration > 0 then checked_add now expiryDuration else Some 0) of
        None \<Rightarrow> Inl Panic
      | Some expiresAt' \<Rightarrow>
          let s1 = s\<lparr>permissions := (permissions s)(sender :=
                     (permissions s sender)(doctor :=
                        \<lparr>doctorAddress = doctor, grantedAt = now, expiresAt = expiresAt',
                         isActive = True, purpose = purpose'\<rparr>))\<rparr>;
              s2 = addAuditLog s1 now sender 0 ''GRANT_ACCESS''
          in Inr (s2\<lparr>eventLog := eventLog s2 @ [AccessGranted sender doctor expiresAt']\<rparr>))"

definition revokeAccess ::
  "MedChain \<Rightarrow> uint256 \<Rightarrow> address \<Rightarrow> address \<Rightarrow> error + MedChain" where
  "revokeAccess s now sender doctor =
     (if \<not> isRegistered (users s sender) then Inl NotRegistered
      else if role (users s sender) \<noteq> Patient then Inl OnlyPatients
      else if \<not> isActive (permissions s sender doctor) then Inl NoActivePermission
      else
        let s1 = s\<lparr>permissions := (permissions s)(sender :=
                   (permissions s sender)(doctor :=
                      (permissions s sender doctor)\<lparr>isActive := False\<rparr>))\<rparr>;
            s2 = addAuditLog s1 now sender 0 ''REVOKE_ACCESS''
        in Inr (s2\<lparr>eventLog := eventLog s2 @ [AccessRevoked sender doctor]\<rparr>))"

definition getAuditTrail :: "MedChain \<Rightarrow> address \<Rightarrow> AuditLog list" where
  "getAuditTrail s user = auditTrails s user"

definition toggleEmergencyMode :: "MedChain \<Rightarrow> address \<Rightarrow> error + MedChain" where
  "toggleEmergencyMode s sender =
     (if sender \<noteq> admin s then Inl AdminOnly
      else let s1 = s\<lparr>emergencyMode := \<not> emergencyMode s\<rparr>
           in Inr (s1\<lparr>eventLog := eventLog s1 @ [EmergencyModeToggled (emergencyMode s1)]\<rparr>))"

definition getStats :: "MedChain \<Rightarrow> uint256 \<times> bool" where
  "getStats s = (recordCounter s, emergencyMode s)"

section \<open>Transactions and reachable states\<close>

text \<open>
  A call of an external function of the contract. The functions declared \<^verbatim>\<open>view\<close>
  write nothing: they are functions of the state above, and a call of one leaves the
  state as it is, whether it returns or reverts.
\<close>

datatype call =
    RegisterUser string UserRole
  | CreateRecord string string string
  | GrantAccess address uint256 string
  | RevokeAccess address
  | ToggleEmergencyMode
  | GetUserInfo address
  | GetPatientRecordIds address
  | GetDoctorAccessibleRecords address
  | GetRecord uint256
  | CheckAccess address address
  | GetAuditTrail address
  | GetStats

fun exec :: "MedChain \<Rightarrow> uint256 \<Rightarrow> address \<Rightarrow> call \<Rightarrow> error + MedChain" where
  "exec s now sender (RegisterUser n r) = registerUser s now sender n r"
| "exec s now sender (CreateRecord h t d) =
     (case createRecord s now sender h t d of Inl e \<Rightarrow> Inl e | Inr (s', _) \<Rightarrow> Inr s')"
| "exec s now sender (GrantAccess doctor dur p) = grantAccess s now sender doctor dur p"
| "exec s now sender (RevokeAccess doctor) = revokeAccess s now sender doctor"
| "exec s now sender ToggleEmergencyMode = toggleEmergencyMode s sender"
| "exec s now sender (GetUserInfo a) = Inr s"
| "exec s now sender (GetPatientRecordIds a) = Inr s"
| "exec s now sender (GetDoctorAccessibleRecords a) =
     (case getDoctorAccessibleRecords s now sender a of Inl e \<Rightarrow> Inl e | Inr _ \<Rightarrow> Inr s)"
| "exec s now sender (GetRecord i) =
     (case getRecord s now sender i of Inl e \<Rightarrow> Inl e | Inr _ \<Rightarrow> Inr s)"
| "exec s now sender (CheckAccess p d) = Inr s"
| "exec s now sender (GetAuditTrail a) = Inr s"
| "exec s now sender GetStats = Inr s"

text \<open>The state after a transaction: a reverted call leaves the state it found.\<close>

definition transact :: "MedChain \<Rightarrow> uint256 \<Rightarrow> address \<Rightarrow> call \<Rightarrow> MedChain" where
  "transact s now sender c = (case exec s now sender c of Inl _ \<Rightarrow> s | Inr s' \<Rightarrow> s')"

text \<open>A run: the transactions in their order, each with its block time and sender.\<close>

fun run :: "MedChain \<Rightarrow> (uint256 \<times> address \<times> call) list \<Rightarrow> MedChain" where
  "run s [] = s"
| "run s ((now, sender, c) # tr) = run (transact s now sender c) tr"

text \<open>The states of a deployed contract: the constructor, then any transactions.\<close>

inductive reachable :: "MedChain \<Rightarrow> bool" where
  deployed: "reachable (constructor deployer now)"
| transacted: "reachable s \<Longrightarrow> reachable (transact s now sender c)"

section \<open>The invariant of the reachable states\<close>

text \<open>
  What every reachable state satisfies: a role other than \<open>NoneRole\<close> comes with the
  registered flag, the only user with role \<open>Admin\<close> is \<open>admin\<close>, the records that
  exist are those with an id from 1 to \<open>recordCounter\<close>, and each stores its own id.
\<close>

definition wellFormed :: "MedChain \<Rightarrow> bool" where
  "wellFormed s \<longleftrightarrow>
     (\<forall>a. role (users s a) \<noteq> NoneRole \<longrightarrow> isRegistered (users s a)) \<and>
     (\<forall>a. role (users s a) = Admin \<longleftrightarrow> a = admin s) \<and>
     (\<forall>i. exists (records s i) \<longleftrightarrow> 0 < i \<and> i \<le> recordCounter s) \<and>
     (\<forall>i. exists (records s i) \<longrightarrow> recordId (records s i) = i)"

section \<open>Runs: the record ids assigned and the audit entries expected\<close>

text \<open>The record ids that the successful \<open>createRecord\<close> calls of a run return, in order.\<close>

fun createdIds :: "MedChain \<Rightarrow> (uint256 \<times> address \<times> call) list \<Rightarrow> uint256 list" where
  "createdIds s [] = []"
| "createdIds s ((now, sender, c) # tr) =
     (case c of
        CreateRecord h t d \<Rightarrow>
          (case createRecord s now sender h t d of Inl _ \<Rightarrow> [] | Inr (_, rid) \<Rightarrow> [rid])
      | _ \<Rightarrow> [])
     @ createdIds (transact s now sender c) tr"

text \<open>
  The audit entries that one transaction of \<open>sender\<close> is to append, in the words of the
  specification: a successful \<open>createRecord\<close>, \<open>grantAccess\<close> or \<open>revokeAccess\<close> logs
  one entry (CREATE with the new record id, GRANT_ACCESS and REVOKE_ACCESS with
  record id 0), and nothing else logs anything.
\<close>

definition loggedEntries :: "MedChain \<Rightarrow> uint256 \<Rightarrow> address \<Rightarrow> call \<Rightarrow> AuditLog list" where
  "loggedEntries s now sender c =
     (case exec s now sender c of
        Inl _ \<Rightarrow> []
      | Inr _ \<Rightarrow>
          (case c of
             CreateRecord h t d \<Rightarrow>
               [\<lparr>accessor = sender, logRecordId = recordCounter s + 1, logTimestamp = now,
                 action = ''CREATE''\<rparr>]
           | GrantAccess doctor dur p \<Rightarrow>
               [\<lparr>accessor = sender, logRecordId = 0, logTimestamp = now,
                 action = ''GRANT_ACCESS''\<rparr>]
           | RevokeAccess doctor \<Rightarrow>
               [\<lparr>accessor = sender, logRecordId = 0, logTimestamp = now,
                 action = ''REVOKE_ACCESS''\<rparr>]
           | _ \<Rightarrow> []))"

fun expectedTrail ::
  "MedChain \<Rightarrow> (uint256 \<times> address \<times> call) list \<Rightarrow> address \<Rightarrow> AuditLog list" where
  "expectedTrail s [] a = []"
| "expectedTrail s ((now, sender, c) # tr) a =
     (if sender = a then loggedEntries s now sender c else [])
     @ expectedTrail (transact s now sender c) tr a"

text \<open>The number of logged actions that the actor \<open>a\<close> performed in a run.\<close>

fun loggedActions :: "MedChain \<Rightarrow> (uint256 \<times> address \<times> call) list \<Rightarrow> address \<Rightarrow> nat" where
  "loggedActions s [] a = 0"
| "loggedActions s ((now, sender, c) # tr) a =
     (if sender = a \<and> \<not> isl (exec s now sender c) \<and>
         (case c of CreateRecord h t d \<Rightarrow> True | GrantAccess doctor dur p \<Rightarrow> True
          | RevokeAccess doctor \<Rightarrow> True | _ \<Rightarrow> False)
      then 1 else 0)
     + loggedActions (transact s now sender c) tr a"

section \<open>The records granted to a doctor\<close>

text \<open>
  In the words of the specification: the ids, in ascending order, of the existing
  records whose owner has an active, unexpired grant to the doctor, that is, for
  which \<open>checkAccess\<close> of the owner and the doctor is valid.
\<close>

definition grantedIds :: "MedChain \<Rightarrow> uint256 \<Rightarrow> address \<Rightarrow> uint256 list" where
  "grantedIds s now doctor =
     filter (\<lambda>i. exists (records s i) \<and>
                  fst (checkAccess s now (patientAddress (records s i)) doctor))
       (map of_nat [1 ..< Suc (unat (recordCounter s))])"

section \<open>A scenario\<close>

text \<open>The scenario of the examples: the deployer 1, the patient 2, the doctors 3 and 4.\<close>

definition demoTrace :: "(uint256 \<times> address \<times> call) list" where
  "demoTrace =
     [(1001, 2, RegisterUser ''Pat'' Patient),
      (1002, 3, RegisterUser ''Doc'' Doctor),
      (1003, 4, RegisterUser ''Doc2'' Doctor),
      (1004, 2, CreateRecord ''Qm123'' ''X-Ray'' ''chest'')]"

definition demoBase :: MedChain where
  "demoBase = run (constructor 1 1000) demoTrace"

definition demoMore :: "(uint256 \<times> address \<times> call) list" where
  "demoMore =
     [(2000, 2, CreateRecord ''QmA'' ''Lab Report'' ''blood''),
      (2001, 3, CreateRecord ''QmX'' ''Lab Report'' ''not a patient''),
      (2002, 2, GrantAccess 3 0 ''second opinion''),
      (2003, 3, GetRecord 1),
      (2004, 2, CreateRecord ''QmB'' ''Prescription'' ''refill'')]"

definition demoGranted :: MedChain where
  "demoGranted = transact demoBase 1005 2 (GrantAccess 3 86400 ''checkup'')"

definition demoRegranted :: MedChain where
  "demoRegranted = transact demoGranted 2000 2 (GrantAccess 3 0 ''permanent'')"

definition demoRevoked :: MedChain where
  "demoRevoked = transact demoGranted 90000 2 (RevokeAccess 3)"

definition demoEmergency :: MedChain where
  "demoEmergency = transact demoGranted 3000 1 ToggleEmergencyMode"

text \<open>
  The patient 2 goes on to create \<open>2 ^ 64 - 1\<close> further records, which takes the
  record counter to \<open>2 ^ 64\<close>.
\<close>

definition demoCount :: nat where
  "demoCount = 2 ^ 64 - 1"

definition demoFull :: MedChain where
  "demoFull = run demoBase
     (replicate demoCount (2000, 2, CreateRecord ''QmA'' ''Lab Report'' ''blood''))"

section \<open>Auxiliary facts\<close>

declare scanRecords.simps [simp del] copyRecords.simps [simp del]

lemma checked_add_Some:
  "checked_add a b = Some c \<Longrightarrow> c = a + b \<and> unat c = unat a + unat b"
  by (auto simp: checked_add_def unat_word_ariths split: if_splits)

lemma checked_add_one:
  "checked_add c 1 = Some c' \<Longrightarrow> c' = c + 1 \<and> unat c' = Suc (unat c)"
  by (auto dest!: checked_add_Some)

lemma le_succ_word:
  fixes i c :: uint256
  assumes "unat c' = Suc (unat c)"
  shows "i \<le> c' \<longleftrightarrow> i \<le> c \<or> i = c'"
proof -
  have "i = c' \<longleftrightarrow> unat i = unat c'" by (simp add: word_unat_eq_iff)
  with assms show ?thesis by (auto simp: word_le_nat_alt)
qed

lemma pos_succ_word:
  fixes c c' :: uint256
  assumes "unat c' = Suc (unat c)"
  shows "0 < c'" and "\<not> c' \<le> c"
  using assms by (auto simp: word_less_nat_alt word_le_nat_alt)

lemma hasAccess_checkAccess:
  "hasAccess s now patient doctor i = fst (checkAccess s now patient doctor)"
  by (auto simp: hasAccess_def checkAccess_def Let_def word_gt_0 not_le)

lemma wellFormed_constructor: "wellFormed (constructor deployer now)"
  by (auto simp: wellFormed_def constructor_def zeroUser_def zeroRecord_def)

lemma wellFormed_registerUser:
  "wellFormed s \<Longrightarrow> registerUser s now sender n r = Inr s' \<Longrightarrow> wellFormed s'"
proof -
  assume wf: "wellFormed s" and reg: "registerUser s now sender n r = Inr s'"
  from wf have "role (users s (admin s)) = Admin"
    by (simp add: wellFormed_def)
  moreover from wf have
    "role (users s (admin s)) \<noteq> NoneRole \<longrightarrow> isRegistered (users s (admin s))"
    unfolding wellFormed_def by blast
  ultimately have "isRegistered (users s (admin s))"
    by simp
  with reg have "sender \<noteq> admin s"
    by (auto simp: registerUser_def split: if_splits)
  with wf reg show ?thesis
    by (auto simp: wellFormed_def registerUser_def split: if_splits)
qed

lemma createRecord_Inr:
  assumes "createRecord s now sender h t d = Inr (s', rid)"
  shows "unat rid = Suc (unat (recordCounter s))"
    and "recordCounter s' = rid"
    and "records s' = (records s)(rid :=
           \<lparr>recordId = rid, patientAddress = sender, ipfsHash = h, recordType = t,
            description = d, timestamp = now, exists = True\<rparr>)"
    and "users s' = users s" and "admin s' = admin s"
    and "permissions s' = permissions s" and "emergencyMode s' = emergencyMode s"
    and "patientRecords s' = (patientRecords s)(sender := patientRecords s sender @ [rid])"
    and "auditTrails s' = (auditTrails s)(sender := auditTrails s sender @
           [\<lparr>accessor = sender, logRecordId = rid, logTimestamp = now, action = ''CREATE''\<rparr>])"
    and "isRegistered (users s sender)" and "role (users s sender) = Patient"
    and "rid = recordCounter s + 1"
  using assms
  by (auto simp: createRecord_def addAuditLog_def Let_def
           dest!: checked_add_one split: if_splits option.splits)

lemma wellFormed_createRecord:
  assumes "wellFormed s" and "createRecord s now sender h t d = Inr (s', rid)"
  shows "wellFormed s'"
proof -
  note c = createRecord_Inr [OF assms(2)]
  have "\<And>i. (0 < i \<and> i \<le> rid) \<longleftrightarrow> (0 < i \<and> i \<le> recordCounter s) \<or> i = rid"
    using le_succ_word [OF c(1)] pos_succ_word(1) [OF c(1)] by auto
  moreover have "\<not> exists (records s rid)"
    using assms(1) pos_succ_word(2) [OF c(1)] by (simp add: wellFormed_def)
  ultimately show ?thesis
    using assms(1) by (auto simp: wellFormed_def c)
qed

lemma grantAccess_Inr:
  assumes "grantAccess s now sender doctor dur p = Inr s'"
  shows "users s' = users s" and "admin s' = admin s" and "records s' = records s"
    and "recordCounter s' = recordCounter s" and "emergencyMode s' = emergencyMode s"
    and "patientRecords s' = patientRecords s"
    and "permissions s' = (permissions s)(sender := (permissions s sender)(doctor :=
           \<lparr>doctorAddress = doctor, grantedAt = now,
            expiresAt = (if dur > 0 then now + dur else 0),
            isActive = True, purpose = p\<rparr>))"
    and "auditTrails s' = (auditTrails s)(sender := auditTrails s sender @
           [\<lparr>accessor = sender, logRecordId = 0, logTimestamp = now,
             action = ''GRANT_ACCESS''\<rparr>])"
    and "isRegistered (users s sender)" and "role (users s sender) = Patient"
    and "role (users s doctor) = Doctor" and "isRegistered (users s doctor)"
    and "dur > 0 \<Longrightarrow> unat now + unat dur < 2 ^ 256"
  using assms
  by (auto simp: grantAccess_def addAuditLog_def Let_def checked_add_def
           split: if_splits option.splits)

lemma revokeAccess_Inr:
  assumes "revokeAccess s now sender doctor = Inr s'"
  shows "users s' = users s" and "admin s' = admin s" and "records s' = records s"
    and "recordCounter s' = recordCounter s" and "emergencyMode s' = emergencyMode s"
    and "patientRecords s' = patientRecords s"
    and "permissions s' = (permissions s)(sender := (permissions s sender)(doctor :=
           (permissions s sender doctor)\<lparr>isActive := False\<rparr>))"
    and "auditTrails s' = (auditTrails s)(sender := auditTrails s sender @
           [\<lparr>accessor = sender, logRecordId = 0, logTimestamp = now,
             action = ''REVOKE_ACCESS''\<rparr>])"
    and "isRegistered (users s sender)" and "role (users s sender) = Patient"
    and "isActive (permissions s sender doctor)"
  using assms
  by (auto simp: revokeAccess_def addAuditLog_def Let_def split: if_splits)

lemma toggleEmergencyMode_Inr:
  assumes "toggleEmergencyMode s sender = Inr s'"
  shows "users s' = users s" and "admin s' = admin s" and "records s' = records s"
    and "recordCounter s' = recordCounter s" and "emergencyMode s' = (\<not> emergencyMode s)"
    and "patientRecords s' = patientRecords s" and "permissions s' = permissions s"
    and "auditTrails s' = auditTrails s" and "sender = admin s"
  using assms
  by (auto simp: toggleEmergencyMode_def Let_def split: if_splits)

lemma registerUser_Inr:
  assumes "registerUser s now sender n r = Inr s'"
  shows "users s' = (users s)(sender := \<lparr>userAddress = sender, name = n, role = r,
           isRegistered = True, registrationTime = now\<rparr>)"
    and "admin s' = admin s" and "records s' = records s"
    and "recordCounter s' = recordCounter s" and "emergencyMode s' = emergencyMode s"
    and "patientRecords s' = patientRecords s" and "permissions s' = permissions s"
    and "auditTrails s' = auditTrails s"
    and "\<not> isRegistered (users s sender)" and "r = Patient \<or> r = Doctor" and "n \<noteq> []"
  using assms
  by (auto simp: registerUser_def split: if_splits)

lemma wellFormed_exec:
  assumes "wellFormed s" and "exec s now sender c = Inr s'"
  shows "wellFormed s'"
proof (cases c)
  case (RegisterUser n r)
  with assms show ?thesis by (auto intro: wellFormed_registerUser)
next
  case (CreateRecord h t d)
  with assms show ?thesis
    by (auto split: sum.splits intro: wellFormed_createRecord)
next
  case (GrantAccess doctor dur p)
  with assms(2) have "grantAccess s now sender doctor dur p = Inr s'" by simp
  from grantAccess_Inr(1-4) [OF this] assms(1) show ?thesis
    by (simp add: wellFormed_def)
next
  case (RevokeAccess doctor)
  with assms(2) have "revokeAccess s now sender doctor = Inr s'" by simp
  from revokeAccess_Inr(1-4) [OF this] assms(1) show ?thesis
    by (simp add: wellFormed_def)
next
  case ToggleEmergencyMode
  with assms(2) have "toggleEmergencyMode s sender = Inr s'" by simp
  from toggleEmergencyMode_Inr(1-4) [OF this] assms(1) show ?thesis
    by (simp add: wellFormed_def)
qed (use assms in \<open>auto split: sum.splits\<close>)

lemma wellFormed_transact: "wellFormed s \<Longrightarrow> wellFormed (transact s now sender c)"
  by (auto simp: transact_def split: sum.splits intro: wellFormed_exec)

lemma reachable_wellFormed: "reachable s \<Longrightarrow> wellFormed s"
  by (induction rule: reachable.induct)
     (auto intro: wellFormed_constructor wellFormed_transact)

lemma reachable_run: "reachable s \<Longrightarrow> reachable (run s tr)"
  by (induction s tr rule: run.induct) (simp_all add: reachable.transacted)

lemma exec_users:
  assumes "exec s now sender c = Inr s'" and "isRegistered (users s a)"
  shows "users s' a = users s a"
proof (cases c)
  case (RegisterUser n r)
  with assms(1) have r: "registerUser s now sender n r = Inr s'" by simp
  from registerUser_Inr(9) [OF r] assms(2) have "a \<noteq> sender" by auto
  then show ?thesis by (simp add: registerUser_Inr(1) [OF r])
next
  case (CreateRecord h t d)
  with assms(1) show ?thesis
    by (auto split: sum.splits dest: createRecord_Inr(4))
next
  case (GrantAccess doctor dur p)
  with assms(1) show ?thesis by (auto dest: grantAccess_Inr(1))
next
  case (RevokeAccess doctor)
  with assms(1) show ?thesis by (auto dest: revokeAccess_Inr(1))
next
  case ToggleEmergencyMode
  with assms(1) show ?thesis by (auto dest: toggleEmergencyMode_Inr(1))
qed (use assms in \<open>auto split: sum.splits\<close>)

lemma exec_admin:
  assumes "exec s now sender c = Inr s'"
  shows "admin s' = admin s"
proof (cases c)
  case (RegisterUser n r)
  with assms show ?thesis by (auto dest: registerUser_Inr(2))
next
  case (CreateRecord h t d)
  with assms show ?thesis
    by (auto split: sum.splits dest: createRecord_Inr(5))
next
  case (GrantAccess doctor dur p)
  with assms show ?thesis by (auto dest: grantAccess_Inr(2))
next
  case (RevokeAccess doctor)
  with assms show ?thesis by (auto dest: revokeAccess_Inr(2))
next
  case ToggleEmergencyMode
  with assms show ?thesis by (auto dest: toggleEmergencyMode_Inr(2))
qed (use assms in \<open>auto split: sum.splits\<close>)

lemma exec_records:
  assumes "exec s now sender c = Inr s'" and "wellFormed s" and "exists (records s i)"
  shows "records s' i = records s i"
proof (cases c)
  case (RegisterUser n r)
  with assms(1) show ?thesis by (auto dest: registerUser_Inr(3))
next
  case (CreateRecord h t d)
  with assms(1) obtain rid where c: "createRecord s now sender h t d = Inr (s', rid)"
    by (auto split: sum.splits)
  from assms(2,3) have "i \<le> recordCounter s" by (simp add: wellFormed_def)
  with pos_succ_word(2) [OF createRecord_Inr(1) [OF c]] have "i \<noteq> rid" by auto
  then show ?thesis by (simp add: createRecord_Inr(3) [OF c])
next
  case (GrantAccess doctor dur p)
  with assms(1) show ?thesis by (auto dest: grantAccess_Inr(3))
next
  case (RevokeAccess doctor)
  with assms(1) show ?thesis by (auto dest: revokeAccess_Inr(3))
next
  case ToggleEmergencyMode
  with assms(1) show ?thesis by (auto dest: toggleEmergencyMode_Inr(3))
qed (use assms in \<open>auto split: sum.splits\<close>)

lemma transact_users:
  "isRegistered (users s a) \<Longrightarrow> users (transact s now sender c) a = users s a"
  by (auto simp: transact_def split: sum.splits dest: exec_users)

lemma transact_admin: "admin (transact s now sender c) = admin s"
  by (auto simp: transact_def split: sum.splits dest: exec_admin)

lemma transact_records:
  "wellFormed s \<Longrightarrow> exists (records s i) \<Longrightarrow> records (transact s now sender c) i = records s i"
  by (auto simp: transact_def split: sum.splits dest: exec_records)

lemma run_users:
  "isRegistered (users s a) \<Longrightarrow> users (run s tr) a = users s a"
  by (induction s tr rule: run.induct) (simp_all add: transact_users)

lemma run_admin: "admin (run s tr) = admin s"
  by (induction s tr rule: run.induct) (simp_all add: transact_admin)

lemma run_records:
  "wellFormed s \<Longrightarrow> exists (records s i) \<Longrightarrow> records (run s tr) i = records s i"
  by (induction s tr rule: run.induct) (simp_all add: transact_records wellFormed_transact)

lemma transact_createRecord:
  "createRecord s now sender h t d = Inr (s', rid) \<Longrightarrow>
   transact s now sender (CreateRecord h t d) = s'"
  by (simp add: transact_def)

lemma transact_recordCounter:
  "recordCounter (transact s now sender c) =
     (case c of
        CreateRecord h t d \<Rightarrow>
          (case createRecord s now sender h t d of
             Inl _ \<Rightarrow> recordCounter s | Inr (_, rid) \<Rightarrow> rid)
      | _ \<Rightarrow> recordCounter s)"
  by (cases c)
     (auto simp: transact_def split: sum.splits
           dest: createRecord_Inr(2) registerUser_Inr(4) grantAccess_Inr(4)
                 revokeAccess_Inr(4) toggleEmergencyMode_Inr(4))

lemma createdIds_dense:
  "map unat (createdIds s tr) =
     [Suc (unat (recordCounter s)) ..< Suc (unat (recordCounter s)) + length (createdIds s tr)]
   \<and> unat (recordCounter (run s tr)) = unat (recordCounter s) + length (createdIds s tr)"
proof (induction s tr rule: createdIds.induct)
  case (1 s)
  show ?case by simp
next
  case (2 s now sender c tr)
  show ?case
  proof (cases "\<exists>h t d s' rid. c = CreateRecord h t d \<and> createRecord s now sender h t d = Inr (s', rid)")
    case True
    then obtain h t d s' rid where c: "c = CreateRecord h t d"
      and cr: "createRecord s now sender h t d = Inr (s', rid)" by blast
    have s1: "transact s now sender c = s'"
      by (simp add: c transact_createRecord [OF cr])
    have rc: "recordCounter s' = rid"
      by (rule createRecord_Inr(2) [OF cr])
    have u: "unat rid = Suc (unat (recordCounter s))"
      by (rule createRecord_Inr(1) [OF cr])
    have ids: "createdIds s ((now, sender, c) # tr) = rid # createdIds s' tr"
      by (simp add: c cr s1 [unfolded c])
    have run: "run s ((now, sender, c) # tr) = run s' tr"
      by (simp add: s1)
    from 2 have ih: "map unat (createdIds s' tr) =
        [Suc (unat rid) ..< Suc (unat rid) + length (createdIds s' tr)]"
      and ihc: "unat (recordCounter (run s' tr)) = unat rid + length (createdIds s' tr)"
      by (simp_all add: s1 rc)
    have "[Suc (unat (recordCounter s)) ..< Suc (unat (recordCounter s)) + Suc k] =
        unat rid # [Suc (unat rid) ..< Suc (unat rid) + k]" for k
      by (simp add: u upt_conv_Cons del: upt_Suc)
    then show ?thesis
      unfolding ids run by (simp add: ih ihc u del: upt_Suc)
  next
    case False
    then have rc: "recordCounter (transact s now sender c) = recordCounter s"
      by (cases c) (auto simp: transact_recordCounter split: sum.splits)
    from False have "createdIds s ((now, sender, c) # tr) = createdIds (transact s now sender c) tr"
      by (cases c) (auto split: sum.splits)
    with 2 rc show ?thesis by simp
  qed
qed

lemma exec_auditTrails:
  assumes "exec s now sender c = Inr s'"
  shows "auditTrails s' a =
    auditTrails s a @ (if sender = a then loggedEntries s now sender c else [])"
proof (cases c)
  case (RegisterUser n r)
  with assms have "registerUser s now sender n r = Inr s'" by simp
  from registerUser_Inr(8) [OF this] show ?thesis
    using RegisterUser assms by (auto simp: loggedEntries_def)
next
  case (CreateRecord h t d)
  with assms obtain rid where c: "createRecord s now sender h t d = Inr (s', rid)"
    by (auto split: sum.splits)
  from createRecord_Inr(12) [OF c] show ?thesis
    using CreateRecord assms by (auto simp: loggedEntries_def createRecord_Inr(9) [OF c])
next
  case (GrantAccess doctor dur p)
  with assms have "grantAccess s now sender doctor dur p = Inr s'" by simp
  from grantAccess_Inr(8) [OF this] show ?thesis
    using GrantAccess assms by (auto simp: loggedEntries_def)
next
  case (RevokeAccess doctor)
  with assms have "revokeAccess s now sender doctor = Inr s'" by simp
  from revokeAccess_Inr(8) [OF this] show ?thesis
    using RevokeAccess assms by (auto simp: loggedEntries_def)
next
  case ToggleEmergencyMode
  with assms have "toggleEmergencyMode s sender = Inr s'" by simp
  from toggleEmergencyMode_Inr(8) [OF this] show ?thesis
    using ToggleEmergencyMode assms by (auto simp: loggedEntries_def)
qed (use assms in \<open>auto simp: loggedEntries_def split: sum.splits\<close>)

lemma transact_auditTrails:
  "auditTrails (transact s now sender c) a =
     auditTrails s a @ (if sender = a then loggedEntries s now sender c else [])"
proof (cases "exec s now sender c")
  case (Inl e)
  then show ?thesis by (auto simp: transact_def loggedEntries_def)
next
  case (Inr s')
  then show ?thesis by (simp add: transact_def exec_auditTrails [OF Inr])
qed

lemma run_auditTrails:
  "auditTrails (run s tr) a = auditTrails s a @ expectedTrail s tr a"
  by (induction s tr rule: run.induct) (simp_all add: transact_auditTrails)

lemma length_expectedTrail: "length (expectedTrail s tr a) = loggedActions s tr a"
proof (induction s tr a rule: expectedTrail.induct)
  case (1 s a)
  show ?case by simp
next
  case (2 s now sender c tr a)
  have "length (loggedEntries s now sender c) =
    (if \<not> isl (exec s now sender c) \<and>
         (case c of CreateRecord h t d \<Rightarrow> True | GrantAccess doctor dur p \<Rightarrow> True
          | RevokeAccess doctor \<Rightarrow> True | _ \<Rightarrow> False)
     then 1 else 0)"
    by (cases c) (auto simp: loggedEntries_def split: sum.splits)
  with 2 show ?case by auto
qed

lemma loggedEntries_kind:
  "e \<in> set (loggedEntries s now sender c) \<Longrightarrow>
   accessor e = sender \<and> action e \<in> {''CREATE'', ''GRANT_ACCESS'', ''REVOKE_ACCESS''}"
  by (cases c) (auto simp: loggedEntries_def split: sum.splits)

lemma expectedTrail_kind:
  "e \<in> set (expectedTrail s tr a) \<Longrightarrow>
   accessor e = a \<and> action e \<in> {''CREATE'', ''GRANT_ACCESS'', ''REVOKE_ACCESS''}"
proof (induction s tr a rule: expectedTrail.induct)
  case (1 s a)
  then show ?case by simp
next
  case (2 s now sender c tr a)
  then show ?case
    using loggedEntries_kind [of e s now sender c] by (auto split: if_splits)
qed

lemma auditTrails_constructor: "auditTrails (constructor deployer t0) a = []"
  by (simp add: constructor_def)

lemma scanRecords_found:
  assumes bound: "unat (recordCounter s) < 2 ^ 256 - 1"
  shows "1 \<le> unat i \<Longrightarrow> unat i \<le> Suc (unat (recordCounter s)) \<Longrightarrow> length found < unat i \<Longrightarrow>
    scanRecords s now doctor i
      (found @ replicate (unat (recordCounter s) - length found) 0) (of_nat (length found)) =
    Inr ((found @ filter (\<lambda>i. exists (records s i) \<and>
                  hasAccess s now (patientAddress (records s i)) doctor i)
             (map of_nat [unat i ..< Suc (unat (recordCounter s))])) @
         replicate (unat (recordCounter s) - length (found @ filter (\<lambda>i. exists (records s i) \<and>
                  hasAccess s now (patientAddress (records s i)) doctor i)
             (map of_nat [unat i ..< Suc (unat (recordCounter s))]))) 0,
         of_nat (length (found @ filter (\<lambda>i. exists (records s i) \<and>
                  hasAccess s now (patientAddress (records s i)) doctor i)
             (map of_nat [unat i ..< Suc (unat (recordCounter s))]))))"
proof (induction "Suc (unat (recordCounter s)) - unat i" arbitrary: i found)
  case 0
  then have "unat i = Suc (unat (recordCounter s))" by simp
  then have "\<not> i \<le> recordCounter s" by (simp add: word_le_nat_alt)
  then show ?case
    using \<open>unat i = Suc (unat (recordCounter s))\<close>
    by (subst scanRecords.simps [of _ _ _ i]) simp
next
  case (Suc k)
  let ?n = "unat (recordCounter s)"
  let ?P = "\<lambda>i. exists (records s i) \<and>
                  hasAccess s now (patientAddress (records s i)) doctor i"
  from Suc.hyps(2) have ile: "unat i \<le> ?n" by simp
  then have le: "i \<le> recordCounter s" by (simp add: word_le_nat_alt)
  from ile bound have "unat i + unat (1 :: uint256) < 2 ^ 256" by simp
  then have ci: "checked_add i 1 = Some (i + 1)" by (simp add: checked_add_def)
  then have ui: "unat (i + 1) = Suc (unat i)" by (auto dest: checked_add_one)
  from Suc.prems(3) ile have fl: "length found < ?n" by simp
  then have uc: "unat (of_nat (length found) :: uint256) = length found"
    by (intro le_unat_uoi [of _ "recordCounter s"]) simp
  have upt: "[unat i ..< Suc ?n] = unat i # [Suc (unat i) ..< Suc ?n]"
    using ile by (simp add: upt_conv_Cons del: upt_Suc)
  have k: "k = Suc ?n - unat (i + 1)" using Suc.hyps(2) ui by simp
  show ?case
  proof (cases "?P i")
    case True
    from fl uc bound have "unat (of_nat (length found) :: uint256) + unat (1 :: uint256) < 2 ^ 256"
      by simp
    then have cc: "checked_add (of_nat (length found) :: uint256) 1 = Some (of_nat (length (found @ [i])))"
      by (simp add: checked_add_def)
    have arr: "(found @ replicate (?n - length found) 0)[length found := i] =
        (found @ [i]) @ replicate (?n - length (found @ [i])) 0"
    proof -
      from fl have "?n - length found = Suc (?n - Suc (length found))" by simp
      then show ?thesis by (simp add: list_update_append)
    qed
    have ih: "scanRecords s now doctor (i + 1)
        ((found @ [i]) @ replicate (?n - length (found @ [i])) 0) (of_nat (length (found @ [i]))) =
      Inr (((found @ [i]) @ filter ?P (map of_nat [unat (i + 1) ..< Suc ?n])) @
         replicate (?n - length ((found @ [i]) @ filter ?P (map of_nat [unat (i + 1) ..< Suc ?n]))) 0,
         of_nat (length ((found @ [i]) @ filter ?P (map of_nat [unat (i + 1) ..< Suc ?n]))))"
      using Suc.prems ile by (intro Suc.hyps(1) [OF k]) (simp_all add: ui)
    have "scanRecords s now doctor i
        (found @ replicate (?n - length found) 0) (of_nat (length found)) =
      scanRecords s now doctor (i + 1)
        ((found @ [i]) @ replicate (?n - length (found @ [i])) 0) (of_nat (length (found @ [i])))"
      using True le fl by (subst scanRecords.simps [of _ _ _ i]) (simp add: uc cc ci arr del: of_nat_Suc)
    also note ih
    finally show ?thesis
      using True by (simp add: upt ui del: upt_Suc)
  next
    case False
    have ih: "scanRecords s now doctor (i + 1)
        (found @ replicate (?n - length found) 0) (of_nat (length found)) =
      Inr ((found @ filter ?P (map of_nat [unat (i + 1) ..< Suc ?n])) @
         replicate (?n - length (found @ filter ?P (map of_nat [unat (i + 1) ..< Suc ?n]))) 0,
         of_nat (length (found @ filter ?P (map of_nat [unat (i + 1) ..< Suc ?n]))))"
      using Suc.prems ile by (intro Suc.hyps(1) [OF k]) (simp_all add: ui)
    have "scanRecords s now doctor i
        (found @ replicate (?n - length found) 0) (of_nat (length found)) =
      scanRecords s now doctor (i + 1)
        (found @ replicate (?n - length found) 0) (of_nat (length found))"
      using False le by (subst scanRecords.simps [of _ _ _ i]) (auto simp: ci)
    also note ih
    finally show ?thesis
      using False by (simp add: upt ui del: upt_Suc)
  qed
qed

lemma copyRecords_take:
  "unat count \<le> length arr \<Longrightarrow> unat i \<le> unat count \<Longrightarrow> length res = unat count \<Longrightarrow>
   copyRecords arr count i res =
     Inr (take (unat i) res @ drop (unat i) (take (unat count) arr))"
proof (induction "unat count - unat i" arbitrary: i res)
  case 0
  then have "\<not> i < count" by (simp add: word_less_nat_alt)
  then show ?case
    using 0 by (subst copyRecords.simps [of _ _ i]) simp
next
  case (Suc k)
  then have lt: "unat i < unat count" by simp
  then have less: "i < count" by (simp add: word_less_nat_alt)
  have "unat count < 2 ^ 256" using unsigned_less [of count] by simp
  with lt have "unat i + unat (1 :: uint256) < 2 ^ 256" by simp
  then have ci: "checked_add i 1 = Some (i + 1)" by (simp add: checked_add_def)
  then have ui: "unat (i + 1) = Suc (unat i)" by (auto dest: checked_add_one)
  have k: "k = unat count - unat (i + 1)" using Suc.hyps(2) ui by simp
  have ih: "copyRecords arr count (i + 1) (res[unat i := arr ! unat i]) =
     Inr (take (unat (i + 1)) (res[unat i := arr ! unat i]) @
          drop (unat (i + 1)) (take (unat count) arr))"
    using Suc.prems lt by (intro Suc.hyps(1) [OF k]) (simp_all add: ui)
  have t: "take (Suc (unat i)) (res[unat i := arr ! unat i]) = take (unat i) res @ [arr ! unat i]"
    using lt Suc.prems(3) by (simp add: take_Suc_conv_app_nth)
  have d: "drop (unat i) (take (unat count) arr) =
      arr ! unat i # drop (Suc (unat i)) (take (unat count) arr)"
    using lt Suc.prems(1) by (simp add: Cons_nth_drop_Suc [symmetric])
  have "copyRecords arr count i res =
      copyRecords arr count (i + 1) (res[unat i := arr ! unat i])"
    using less lt Suc.prems by (subst copyRecords.simps [of _ _ i]) (simp add: ci)
  also note ih
  finally show ?case
    by (simp add: ui t d)
qed

lemma getDoctorAccessibleRecords_grantedIds:
  assumes "role (users s doctor) = Doctor" and small: "unat (recordCounter s) < 2 ^ 64"
  shows "getDoctorAccessibleRecords s now doctor doctor = Inr (grantedIds s now doctor)"
proof -
  let ?n = "unat (recordCounter s)"
  let ?F = "filter (\<lambda>i. exists (records s i) \<and>
                  hasAccess s now (patientAddress (records s i)) doctor i)
             (map of_nat [1 ..< Suc ?n])"
  have "(2 :: nat) ^ 64 < 2 ^ 256 - 1" by simp
  with small have bound: "?n < 2 ^ 256 - 1" by (rule less_trans)
  have alloc: "newArray (recordCounter s) = Some (replicate ?n 0)"
    using small by (simp add: newArray_def)
  have scan: "scanRecords s now doctor 1 (replicate ?n 0) 0 =
      Inr (?F @ replicate (?n - length ?F) 0, of_nat (length ?F))"
    using scanRecords_found [OF bound, of 1 "[]" now doctor] by simp
  define F where "F = ?F"
  have Fg: "grantedIds s now doctor = F"
    unfolding F_def grantedIds_def by (simp only: hasAccess_checkAccess)
  have "length F \<le> length (map (of_nat :: nat \<Rightarrow> uint256) [1 ..< Suc ?n])"
    unfolding F_def by (rule length_filter_le)
  then have len: "length F \<le> ?n" by (simp del: upt_Suc)
  then have uc: "unat (of_nat (length F) :: uint256) = length F"
    by (rule le_unat_uoi)
  from len small have "length F < 2 ^ 64" by (rule le_less_trans)
  then have alloc2: "newArray (of_nat (length F)) = Some (replicate (length F) 0)"
    by (simp add: newArray_def uc)
  have copy: "copyRecords (F @ replicate (?n - length F) 0) (of_nat (length F)) 0
      (replicate (length F) 0) = Inr F"
    using len by (subst copyRecords_take) (simp_all add: uc)
  show ?thesis
    using assms(1)
    by (simp add: getDoctorAccessibleRecords_def alloc scan [folded F_def] alloc2 copy Fg)
qed

lemma getDoctorAccessibleRecords_too_many:
  assumes "role (users s doctor) = Doctor" and "2 ^ 64 \<le> unat (recordCounter s)"
  shows "getDoctorAccessibleRecords s now doctor doctor = Inl Panic"
proof -
  from assms(2) have "newArray (recordCounter s) = None"
    by (simp add: newArray_def)
  with assms(1) show ?thesis
    by (simp add: getDoctorAccessibleRecords_def)
qed

lemma createRecord_succeeds:
  assumes "isRegistered (users s p)" and "role (users s p) = Patient" and "h \<noteq> []"
    and "Suc (unat (recordCounter s)) < 2 ^ 256"
  shows "\<exists>s' rid. createRecord s now p h ty d = Inr (s', rid)"
  using assms by (simp add: createRecord_def checked_add_def Let_def)

lemma run_creates:
  assumes "h \<noteq> []"
  shows "isRegistered (users s p) \<Longrightarrow> role (users s p) = Patient \<Longrightarrow>
    unat (recordCounter s) + n < 2 ^ 256 \<Longrightarrow>
    unat (recordCounter (run s (replicate n (now, p, CreateRecord h ty d)))) =
      unat (recordCounter s) + n \<and>
    users (run s (replicate n (now, p, CreateRecord h ty d))) = users s"
proof (induction n arbitrary: s)
  case 0
  show ?case by simp
next
  case (Suc n)
  from Suc.prems have "Suc (unat (recordCounter s)) < 2 ^ 256" by simp
  with Suc.prems assms obtain s' rid
    where c: "createRecord s now p h ty d = Inr (s', rid)"
    using createRecord_succeeds [of s p h now ty d] by blast
  have t: "transact s now p (CreateRecord h ty d) = s'"
    by (rule transact_createRecord [OF c])
  have rc: "unat (recordCounter s') = Suc (unat (recordCounter s))"
    using createRecord_Inr(1,2) [OF c] by simp
  have us: "users s' = users s"
    by (rule createRecord_Inr(4) [OF c])
  from Suc.prems have "unat (recordCounter s') + n < 2 ^ 256"
    by (simp add: rc)
  with Suc.prems have
    "unat (recordCounter (run s' (replicate n (now, p, CreateRecord h ty d)))) =
      unat (recordCounter s') + n \<and>
    users (run s' (replicate n (now, p, CreateRecord h ty d))) = users s'"
    by (intro Suc.IH) (simp_all add: us)
  then show ?case
    by (simp add: t rc us)
qed

lemma word_of_nat_upt_sorted:
  assumes "n < 2 ^ 256"
  shows "sorted_wrt (<) (map (of_nat :: nat \<Rightarrow> uint256) [m ..< n])"
proof -
  have "(of_nat x :: uint256) < of_nat y" if "x < y" and "y < n" for x y
  proof -
    from that assms have "x < 2 ^ 256" and "y < 2 ^ 256" by simp_all
    then have "unat (of_nat x :: uint256) = x" and "unat (of_nat y :: uint256) = y"
      by (simp_all add: unat_of_nat)
    with that(1) show ?thesis by (simp add: word_less_nat_alt)
  qed
  note lt = this
  have "sorted_wrt (\<lambda>x y. (of_nat x :: uint256) < of_nat y) [m ..< n]"
  proof (rule sorted_wrt_mono_rel [where P = "(<)"])
    fix x y :: nat
    assume "x \<in> set [m ..< n]" and "y \<in> set [m ..< n]" and "x < y"
    then show "(of_nat x :: uint256) < of_nat y"
      using lt [of x y] by simp
  next
    show "sorted_wrt (<) [m ..< n]"
      by (rule sorted_wrt_upt)
  qed
  then show ?thesis
    by (simp only: sorted_wrt_map)
qed

lemma set_word_of_nat_upt:
  "(i :: uint256) \<in> set (map of_nat [1 ..< Suc (unat c)]) \<longleftrightarrow> 0 < i \<and> i \<le> (c :: uint256)"
proof
  assume "i \<in> set (map of_nat [1 ..< Suc (unat c)])"
  then have "i \<in> (of_nat :: nat \<Rightarrow> uint256) ` {1 ..< Suc (unat c)}"
    by (simp del: upt_Suc)
  then obtain k where k: "i = of_nat k" "1 \<le> k" "k \<le> unat c" by auto
  from k(3) have "unat (of_nat k :: uint256) = k" by (rule le_unat_uoi)
  with k show "0 < i \<and> i \<le> c" by (simp add: word_less_nat_alt word_le_nat_alt)
next
  assume "0 < i \<and> i \<le> c"
  then have "1 \<le> unat i" and "unat i \<le> unat c"
    by (simp_all add: word_less_nat_alt word_le_nat_alt)
  then have "unat i \<in> {1 ..< Suc (unat c)}" by simp
  then have "of_nat (unat i) \<in> (of_nat :: nat \<Rightarrow> uint256) ` {1 ..< Suc (unat c)}"
    by (rule imageI)
  then show "i \<in> set (map of_nat [1 ..< Suc (unat c)])" by (simp del: upt_Suc)
qed

section \<open>The states of the scenario\<close>

lemma demoBase_reachable: "reachable demoBase"
  unfolding demoBase_def by (rule reachable_run) (rule reachable.deployed)

lemma demoGranted_reachable: "reachable demoGranted"
  unfolding demoGranted_def by (rule reachable.transacted) (rule demoBase_reachable)

lemma demoBase_state:
  "demoBase = \<lparr>users = (\<lambda>_. zeroUser)
       (1 := \<lparr>userAddress = 1, name = ''System Admin'', role = Admin,
              isRegistered = True, registrationTime = 1000\<rparr>,
        2 := \<lparr>userAddress = 2, name = ''Pat'', role = Patient,
              isRegistered = True, registrationTime = 1001\<rparr>,
        3 := \<lparr>userAddress = 3, name = ''Doc'', role = Doctor,
              isRegistered = True, registrationTime = 1002\<rparr>,
        4 := \<lparr>userAddress = 4, name = ''Doc2'', role = Doctor,
              isRegistered = True, registrationTime = 1003\<rparr>),
      patientRecords = (\<lambda>_. [])(2 := [1]),
      records = (\<lambda>_. zeroRecord)(1 :=
         \<lparr>recordId = 1, patientAddress = 2, ipfsHash = ''Qm123'',
          recordType = ''X-Ray'', description = ''chest'', timestamp = 1004,
          exists = True\<rparr>),
      permissions = (\<lambda>_ _. zeroPermission),
      auditTrails = (\<lambda>_. [])(2 :=
         [\<lparr>accessor = 2, logRecordId = 1, logTimestamp = 1004, action = ''CREATE''\<rparr>]),
      recordCounter = 1,
      admin = 1,
      emergencyMode = False,
      eventLog = [UserRegistered 2 ''Pat'' Patient, UserRegistered 3 ''Doc'' Doctor,
        UserRegistered 4 ''Doc2'' Doctor, RecordCreated 1 2 ''X-Ray'']\<rparr>"
  by (simp add: demoBase_def demoTrace_def transact_def constructor_def registerUser_def
        createRecord_def addAuditLog_def checked_add_def zeroUser_def Let_def)

lemma demoGranted_state:
  "demoGranted = demoBase\<lparr>
      permissions := (\<lambda>_ _. zeroPermission)(2 := (\<lambda>_. zeroPermission)(3 :=
         \<lparr>doctorAddress = 3, grantedAt = 1005, expiresAt = 87405, isActive = True,
          purpose = ''checkup''\<rparr>)),
      auditTrails := (\<lambda>_. [])(2 :=
         [\<lparr>accessor = 2, logRecordId = 1, logTimestamp = 1004, action = ''CREATE''\<rparr>,
          \<lparr>accessor = 2, logRecordId = 0, logTimestamp = 1005,
           action = ''GRANT_ACCESS''\<rparr>]),
      eventLog := eventLog demoBase @ [AccessGranted 2 3 87405]\<rparr>"
  by (simp add: demoGranted_def demoBase_state transact_def grantAccess_def
        addAuditLog_def checked_add_def Let_def)

lemma demoGranted_grant:
  "grantAccess demoBase 1005 2 3 86400 ''checkup'' = Inr demoGranted"
  by (simp add: demoGranted_state demoBase_state grantAccess_def
        addAuditLog_def checked_add_def Let_def)

lemma demoRegranted_grant:
  "grantAccess demoGranted 2000 2 3 0 ''permanent'' = Inr demoRegranted"
  by (simp add: demoRegranted_def transact_def demoGranted_state demoBase_state
        grantAccess_def addAuditLog_def Let_def)

lemma demoRevoked_revoke:
  "revokeAccess demoGranted 90000 2 3 = Inr demoRevoked"
  by (simp add: demoRevoked_def transact_def demoGranted_state demoBase_state
        revokeAccess_def addAuditLog_def Let_def)

lemma demoRevoked_state:
  "demoRevoked = demoGranted\<lparr>
      permissions := (\<lambda>_ _. zeroPermission)(2 := (\<lambda>_. zeroPermission)(3 :=
         \<lparr>doctorAddress = 3, grantedAt = 1005, expiresAt = 87405, isActive = False,
          purpose = ''checkup''\<rparr>)),
      auditTrails := (\<lambda>_. [])(2 :=
         [\<lparr>accessor = 2, logRecordId = 1, logTimestamp = 1004, action = ''CREATE''\<rparr>,
          \<lparr>accessor = 2, logRecordId = 0, logTimestamp = 1005,
           action = ''GRANT_ACCESS''\<rparr>,
          \<lparr>accessor = 2, logRecordId = 0, logTimestamp = 90000,
           action = ''REVOKE_ACCESS''\<rparr>]),
      eventLog := eventLog demoGranted @ [AccessRevoked 2 3]\<rparr>"
  by (simp add: demoRevoked_def transact_def demoGranted_state demoBase_state
        revokeAccess_def addAuditLog_def Let_def)

lemma demoBase_created: "createdIds (constructor 1 1000) demoTrace = [1]"
  by (simp add: demoTrace_def transact_def constructor_def registerUser_def
        createRecord_def addAuditLog_def checked_add_def zeroUser_def Let_def)

lemma demoMore_created: "createdIds demoBase demoMore = [2, 3]"
  by (simp add: demoMore_def demoBase_state transact_def createRecord_def grantAccess_def
        getRecord_def hasAccess_def addAuditLog_def checked_add_def zeroUser_def Let_def)

lemma demoTrace_logged: "loggedActions (constructor 1 1000) demoTrace 2 = 1"
  by (simp add: demoTrace_def transact_def constructor_def registerUser_def
        createRecord_def addAuditLog_def checked_add_def zeroUser_def Let_def)

lemma demoEmergency_state: "demoEmergency = demoGranted\<lparr>emergencyMode := True,
    eventLog := eventLog demoGranted @ [EmergencyModeToggled True]\<rparr>"
  by (simp add: demoEmergency_def transact_def toggleEmergencyMode_def demoGranted_state
        demoBase_state Let_def)

lemma demoEmergency_granted:
  "grantedIds demoEmergency 3001 3 = [1]" "grantedIds demoEmergency 3001 4 = []"
  by (simp_all add: grantedIds_def demoEmergency_state demoGranted_state demoBase_state
        checkAccess_def zeroPermission_def Let_def)

lemma demoFull_reachable: "reachable demoFull"
  unfolding demoFull_def by (rule reachable_run) (rule demoBase_reachable)

lemma demoFull_state:
  "unat (recordCounter demoFull) = 2 ^ 64"
  "users demoFull = users demoBase"
proof -
  have "unat (recordCounter demoBase) + demoCount < 2 ^ 256"
    by (simp add: demoBase_state demoCount_def)
  then have "unat (recordCounter demoFull) = unat (recordCounter demoBase) + demoCount \<and>
      users demoFull = users demoBase"
    unfolding demoFull_def
    by (intro run_creates) (simp_all add: demoBase_state)
  then show "unat (recordCounter demoFull) = 2 ^ 64" and "users demoFull = users demoBase"
    by (simp_all add: demoBase_state demoCount_def)
qed

section \<open>The claims\<close>

text \<open>
  C1. In a reachable state the record ids that were created are those from 1 to
  \<open>recordCounter\<close> (the records whose \<open>exists\<close> flag is set). For such an id and any
  actor, \<open>getRecord\<close> returns the fields of the record exactly when the actor is the
  owner of the record, or \<open>checkAccess\<close> of the owner and the actor is valid, or
  emergency mode is on and the role of the actor is Doctor, or the actor is the admin;
  otherwise it fails with \<open>Unauthorized\<close>. For an id never created it fails with
  \<open>RecordNotFound\<close>, whoever the actor is.
\<close>

theorem getRecord_authorization:
  assumes "reachable s"
  shows "(exists (records s rid) \<longleftrightarrow> 0 < rid \<and> rid \<le> recordCounter s) \<and>
     getRecord s now actor rid =
       (if 0 < rid \<and> rid \<le> recordCounter s then
          (if actor = patientAddress (records s rid) \<or>
              fst (checkAccess s now (patientAddress (records s rid)) actor) \<or>
              (emergencyMode s \<and> role (users s actor) = Doctor) \<or>
              actor = admin s
           then Inr (patientAddress (records s rid), ipfsHash (records s rid),
                     recordType (records s rid), description (records s rid),
                     timestamp (records s rid))
           else Inl Unauthorized)
        else Inl RecordNotFound)"
proof -
  from assms have "wellFormed s" by (rule reachable_wellFormed)
  then have "exists (records s rid) \<longleftrightarrow> 0 < rid \<and> rid \<le> recordCounter s"
    by (simp add: wellFormed_def)
  then show ?thesis
    by (simp add: getRecord_def Let_def hasAccess_checkAccess)
qed

theorem getRecord_authorization_witness:
  "reachable demoGranted \<and>
   getRecord demoGranted 1006 3 1 = Inr (2, ''Qm123'', ''X-Ray'', ''chest'', 1004) \<and>
   getRecord demoGranted 87405 3 1 = Inl Unauthorized \<and>
   getRecord demoGranted 87405 2 1 = Inr (2, ''Qm123'', ''X-Ray'', ''chest'', 1004) \<and>
   getRecord demoGranted 1006 4 1 = Inl Unauthorized \<and>
   getRecord demoGranted 1006 1 1 = Inr (2, ''Qm123'', ''X-Ray'', ''chest'', 1004) \<and>
   getRecord demoGranted 1006 1 2 = Inl RecordNotFound \<and>
   getRecord demoGranted 1006 2 0 = Inl RecordNotFound"
  using demoGranted_reachable
    getRecord_authorization [OF demoGranted_reachable, of 1 1006 3]
    getRecord_authorization [OF demoGranted_reachable, of 1 87405 3]
    getRecord_authorization [OF demoGranted_reachable, of 1 87405 2]
    getRecord_authorization [OF demoGranted_reachable, of 1 1006 4]
    getRecord_authorization [OF demoGranted_reachable, of 1 1006 1]
    getRecord_authorization [OF demoGranted_reachable, of 2 1006 1]
    getRecord_authorization [OF demoGranted_reachable, of 0 1006 2]
  by (simp add: demoGranted_state demoBase_state checkAccess_def
        zeroPermission_def zeroUser_def)

text \<open>
  C2. For every pair of a patient and a doctor, every state and every block time,
  \<open>checkAccess\<close> returns the stored grant's \<open>grantedAt\<close>, \<open>expiresAt\<close> and \<open>purpose\<close>
  with \<open>valid = active \<and> (expiresAt = 0 \<or> expiresAt > now)\<close>; a grant with
  \<open>expiresAt = 0\<close> is valid at every time while it is active; and a call of
  \<open>checkAccess\<close> leaves the whole state, audit trails included, as it was.
\<close>

theorem checkAccess_pure_query:
  "checkAccess s now patient doctor =
     (isActive (permissions s patient doctor) \<and>
        (expiresAt (permissions s patient doctor) = 0 \<or>
         expiresAt (permissions s patient doctor) > now),
      grantedAt (permissions s patient doctor),
      expiresAt (permissions s patient doctor),
      purpose (permissions s patient doctor))
   \<and> (expiresAt (permissions s patient doctor) = 0 \<longrightarrow>
        fst (checkAccess s now patient doctor) = isActive (permissions s patient doctor))
   \<and> transact s now sender (CheckAccess patient doctor) = s"
  by (simp add: checkAccess_def transact_def Let_def)

theorem checkAccess_pure_query_witness:
  "expiresAt (permissions demoRegranted 2 3) = 0 \<and>
   checkAccess demoRegranted (- 1) 2 3 = (True, 2000, 0, ''permanent'') \<and>
   checkAccess demoGranted 2000 2 3 = (True, 1005, 87405, ''checkup'') \<and>
   checkAccess demoGranted 87405 2 3 = (False, 1005, 87405, ''checkup'') \<and>
   transact demoGranted 2000 4 (CheckAccess 2 3) = demoGranted"
  using checkAccess_pure_query [of demoRegranted "- 1" 2 3]
    checkAccess_pure_query [of demoGranted 2000 2 3 4]
    checkAccess_pure_query [of demoGranted 87405 2 3]
    grantAccess_Inr(7) [OF demoRegranted_grant]
  by (simp add: demoGranted_state demoBase_state zeroPermission_def)

text \<open>
  C3. As the claim states it, every Doctor who asks for their own id gets the list.
  That fails once more than \<open>2 ^ 64 - 1\<close> records exist: the allocation
  \<^verbatim>\<open>new uint256[](recordCounter)\<close> reverts, here in the reachable state in which the
  patient has created records up to the counter \<open>2 ^ 64\<close>.
\<close>

theorem getDoctorAccessibleRecords_grants_only_counterexample:
  "reachable demoFull \<and> role (users demoFull 3) = Doctor \<and>
   isRegistered (users demoFull 3) \<and>
   unat (recordCounter demoFull) = 2 ^ 64 \<and>
   getDoctorAccessibleRecords demoFull 3001 3 3 = Inl Panic \<and>
   getDoctorAccessibleRecords demoFull 3001 3 3 \<noteq> Inr (grantedIds demoFull 3001 3)"
proof -
  have r: "role (users demoFull 3) = Doctor" and g: "isRegistered (users demoFull 3)"
    by (simp_all add: demoFull_state(2) demoBase_state)
  have "(2 :: nat) ^ 64 \<le> unat (recordCounter demoFull)"
    by (simp only: demoFull_state(1) order_refl)
  with r have "getDoctorAccessibleRecords demoFull 3001 3 3 = Inl Panic"
    by (rule getDoctorAccessibleRecords_too_many)
  with r g demoFull_reachable demoFull_state(1) show ?thesis
    by simp
qed

text \<open>
  C3, amended. For a caller whose role is Doctor and who asks for their own id, in a
  state with at most \<open>2 ^ 64 - 1\<close> records, \<open>getDoctorAccessibleRecords\<close> returns, in
  ascending order, exactly the ids from 1 to \<open>recordCounter\<close> of the existing
  records whose owner has an active, unexpired grant to the doctor; with more records
  the call reverts with a panic. The result is the same whatever the emergency flag
  and the admin are: membership comes from the grants alone, also where \<open>getRecord\<close>
  succeeds for the same id by the emergency or admin path.
\<close>

theorem getDoctorAccessibleRecords_grants_only:
  assumes "role (users s doctor) = Doctor"
  shows "(unat (recordCounter s) < 2 ^ 64 \<longrightarrow>
          getDoctorAccessibleRecords s now doctor doctor = Inr (grantedIds s now doctor)
          \<and> sorted_wrt (<) (grantedIds s now doctor)
          \<and> (i \<in> set (grantedIds s now doctor) \<longleftrightarrow>
               0 < i \<and> i \<le> recordCounter s \<and> exists (records s i) \<and>
               isActive (permissions s (patientAddress (records s i)) doctor) \<and>
               (expiresAt (permissions s (patientAddress (records s i)) doctor) = 0 \<or>
                now < expiresAt (permissions s (patientAddress (records s i)) doctor))))
     \<and> (2 ^ 64 \<le> unat (recordCounter s) \<longrightarrow>
          getDoctorAccessibleRecords s now doctor doctor = Inl Panic)
     \<and> getDoctorAccessibleRecords (s\<lparr>emergencyMode := e, admin := x\<rparr>) now doctor doctor =
         getDoctorAccessibleRecords s now doctor doctor"
proof -
  have role': "role (users (s\<lparr>emergencyMode := e, admin := x\<rparr>) doctor) = Doctor"
    using assms by simp
  have small: "getDoctorAccessibleRecords s now doctor doctor = Inr (grantedIds s now doctor)
          \<and> sorted_wrt (<) (grantedIds s now doctor)
          \<and> (i \<in> set (grantedIds s now doctor) \<longleftrightarrow>
               0 < i \<and> i \<le> recordCounter s \<and> exists (records s i) \<and>
               isActive (permissions s (patientAddress (records s i)) doctor) \<and>
               (expiresAt (permissions s (patientAddress (records s i)) doctor) = 0 \<or>
                now < expiresAt (permissions s (patientAddress (records s i)) doctor)))"
    if b: "unat (recordCounter s) < 2 ^ 64"
  proof -
    have eq: "getDoctorAccessibleRecords s now doctor doctor = Inr (grantedIds s now doctor)"
      using assms b by (rule getDoctorAccessibleRecords_grantedIds)
    have "(2 :: nat) ^ 64 < 2 ^ 256 - 1" by simp
    with b have "unat (recordCounter s) < 2 ^ 256 - 1" by (rule less_trans)
    then have so: "sorted_wrt (<) (grantedIds s now doctor)"
      unfolding grantedIds_def
      by (intro sorted_wrt_filter word_of_nat_upt_sorted) simp
    have mem: "i \<in> set (grantedIds s now doctor) \<longleftrightarrow>
          0 < i \<and> i \<le> recordCounter s \<and> exists (records s i) \<and>
          isActive (permissions s (patientAddress (records s i)) doctor) \<and>
          (expiresAt (permissions s (patientAddress (records s i)) doctor) = 0 \<or>
           now < expiresAt (permissions s (patientAddress (records s i)) doctor))"
      unfolding grantedIds_def set_filter
      using set_word_of_nat_upt [of i "recordCounter s"]
      by (auto simp: checkAccess_def Let_def)
    show ?thesis
      using eq so mem by - (intro conjI; assumption)
  qed
  have big: "getDoctorAccessibleRecords s now doctor doctor = Inl Panic"
    if "2 ^ 64 \<le> unat (recordCounter s)"
    using assms that by (rule getDoctorAccessibleRecords_too_many)
  have ind: "getDoctorAccessibleRecords (s\<lparr>emergencyMode := e, admin := x\<rparr>) now doctor doctor =
         getDoctorAccessibleRecords s now doctor doctor"
  proof (cases "unat (recordCounter s) < 2 ^ 64")
    case True
    then have "unat (recordCounter (s\<lparr>emergencyMode := e, admin := x\<rparr>)) < 2 ^ 64"
      by simp
    with role' have
      "getDoctorAccessibleRecords (s\<lparr>emergencyMode := e, admin := x\<rparr>) now doctor doctor =
        Inr (grantedIds (s\<lparr>emergencyMode := e, admin := x\<rparr>) now doctor)"
      by (rule getDoctorAccessibleRecords_grantedIds)
    also have "grantedIds (s\<lparr>emergencyMode := e, admin := x\<rparr>) now doctor =
        grantedIds s now doctor"
      by (simp add: grantedIds_def checkAccess_def)
    finally show ?thesis
      using small [OF True] by simp
  next
    case False
    then have b: "2 ^ 64 \<le> unat (recordCounter s)" by simp
    then have "2 ^ 64 \<le> unat (recordCounter (s\<lparr>emergencyMode := e, admin := x\<rparr>))"
      by simp
    with role' have
      "getDoctorAccessibleRecords (s\<lparr>emergencyMode := e, admin := x\<rparr>) now doctor doctor =
        Inl Panic"
      by (rule getDoctorAccessibleRecords_too_many)
    with big [OF b] show ?thesis by simp
  qed
  from small big ind show ?thesis
    by blast
qed

theorem getDoctorAccessibleRecords_grants_only_witness:
  "role (users demoEmergency 3) = Doctor \<and> role (users demoEmergency 4) = Doctor \<and>
   unat (recordCounter demoEmergency) < 2 ^ 64 \<and> emergencyMode demoEmergency \<and>
   getDoctorAccessibleRecords demoEmergency 3001 3 3 = Inr [1] \<and>
   getDoctorAccessibleRecords demoEmergency 3001 4 4 = Inr [] \<and>
   getRecord demoEmergency 3001 4 1 = Inr (2, ''Qm123'', ''X-Ray'', ''chest'', 1004)"
  using getDoctorAccessibleRecords_grants_only [where s = demoEmergency and doctor = 3
      and now = 3001 and i = 1 and e = True and x = 1]
    getDoctorAccessibleRecords_grants_only [where s = demoEmergency and doctor = 4
      and now = 3001 and i = 1 and e = True and x = 1]
    demoEmergency_granted
  by (simp add: demoEmergency_state demoGranted_state demoBase_state getRecord_def
        hasAccess_def zeroPermission_def Let_def)

text \<open>
  C4. For every pair of a patient and a doctor, a second successful \<open>grantAccess\<close>
  overwrites the stored grant entirely: after the grants G1 and G2 the stored grant
  has \<open>grantedAt\<close> the time of G2, \<open>expiresAt\<close> that time plus the duration of G2
  (without wrap-around) when the duration is positive and 0 when it is 0, the active
  flag set and the purpose of G2; \<open>checkAccess\<close> returns these at every later time;
  and the stored grant is the one that G2 alone, without G1, would have stored.
\<close>

theorem grantAccess_overwrites:
  assumes "grantAccess s0 now1 patient doctor dur1 purpose1 = Inr s1"
    and "grantAccess s1 now2 patient doctor dur2 purpose2 = Inr s2"
  shows "permissions s2 patient doctor =
       \<lparr>doctorAddress = doctor, grantedAt = now2,
        expiresAt = (if dur2 > 0 then now2 + dur2 else 0),
        isActive = True, purpose = purpose2\<rparr>
     \<and> checkAccess s2 t patient doctor =
         (dur2 = 0 \<or> t < now2 + dur2, now2,
          (if dur2 > 0 then now2 + dur2 else 0), purpose2)
     \<and> (dur2 > 0 \<longrightarrow>
          unat (expiresAt (permissions s2 patient doctor)) = unat now2 + unat dur2)
     \<and> (\<forall>s2'. grantAccess s0 now2 patient doctor dur2 purpose2 = Inr s2' \<longrightarrow>
          permissions s2' patient doctor = permissions s2 patient doctor)"
proof -
  note g2 = grantAccess_Inr [OF assms(2)]
  have p: "permissions s2 patient doctor =
       \<lparr>doctorAddress = doctor, grantedAt = now2,
        expiresAt = (if dur2 > 0 then now2 + dur2 else 0),
        isActive = True, purpose = purpose2\<rparr>"
    by (simp add: g2(7))
  have u: "unat (now2 + dur2) = unat now2 + unat dur2" if "dur2 > 0"
    using g2(13) [OF that] by (simp add: unat_word_ariths)
  have nz: "now2 + dur2 \<noteq> 0" if "dur2 > 0"
  proof
    assume "now2 + dur2 = 0"
    with u [OF that] have "unat dur2 = 0" by simp
    with that show False by (simp add: word_less_nat_alt)
  qed
  have "permissions s2' patient doctor = permissions s2 patient doctor"
    if "grantAccess s0 now2 patient doctor dur2 purpose2 = Inr s2'" for s2'
    using grantAccess_Inr(7) [OF that] p by simp
  then show ?thesis
    using p u nz by (auto simp: checkAccess_def Let_def word_gt_0)
qed

theorem grantAccess_overwrites_witness:
  "grantAccess demoBase 1005 2 3 86400 ''checkup'' = Inr demoGranted \<and>
   grantAccess demoGranted 2000 2 3 0 ''permanent'' = Inr demoRegranted \<and>
   checkAccess demoRegranted 90000 2 3 = (True, 2000, 0, ''permanent'') \<and>
   permissions demoRegranted 2 3 =
     \<lparr>doctorAddress = 3, grantedAt = 2000, expiresAt = 0, isActive = True,
      purpose = ''permanent''\<rparr>"
  using grantAccess_overwrites [OF demoGranted_grant demoRegranted_grant, of 90000]
    demoGranted_grant demoRegranted_grant
  by simp

text \<open>
  C5. For a registered Patient as the caller and any doctor address, \<open>revokeAccess\<close>
  succeeds exactly when the active flag of the stored grant is set, whatever the
  block time and the expiry of the grant, and then clears the flag; when the flag is
  not set the call fails with \<open>NoActivePermission\<close> and the state after the
  transaction, audit trails included, is the state before it.
\<close>

theorem revokeAccess_active_flag:
  assumes "isRegistered (users s patient)" and "role (users s patient) = Patient"
  shows "(isActive (permissions s patient doctor) \<longrightarrow>
            (\<exists>s'. revokeAccess s now patient doctor = Inr s' \<and>
                  permissions s' patient doctor =
                    (permissions s patient doctor)\<lparr>isActive := False\<rparr>))
       \<and> (\<not> isActive (permissions s patient doctor) \<longrightarrow>
            revokeAccess s now patient doctor = Inl NoActivePermission \<and>
            transact s now patient (RevokeAccess doctor) = s)"
  using assms by (simp add: revokeAccess_def transact_def addAuditLog_def Let_def)

theorem revokeAccess_active_flag_witness:
  "isRegistered (users demoGranted 2) \<and> role (users demoGranted 2) = Patient \<and>
   isActive (permissions demoGranted 2 3) \<and>
   expiresAt (permissions demoGranted 2 3) = 87405 \<and>
   revokeAccess demoGranted 90000 2 3 = Inr demoRevoked \<and>
   \<not> isActive (permissions demoRevoked 2 3) \<and>
   revokeAccess demoRevoked 90001 2 3 = Inl NoActivePermission \<and>
   transact demoRevoked 90001 2 (RevokeAccess 3) = demoRevoked"
  using revokeAccess_active_flag [of demoGranted 2 3 90000]
    revokeAccess_active_flag [of demoRevoked 2 3 90001]
    demoRevoked_revoke
  by (simp add: demoRevoked_state demoGranted_state demoBase_state)

text \<open>
  C6. Record ids are unique, strictly increasing, dense from 1 and never reused. In
  every reachable state the records that exist are those with an id from 1 to
  \<open>recordCounter\<close>, each storing its own id; a successful \<open>createRecord\<close> returns
  the counter plus one, an id that no record had, and stores the record under it; a
  record that exists is left as it is by every transaction and every run; the ids
  returned by the successful creations of a run are consecutive and distinct, and
  from the constructor they are \<open>1, \<dots>, N\<close> in the order of creation.
\<close>

theorem record_ids_dense_and_stable:
  assumes "reachable s"
  shows "(exists (records s i) \<longleftrightarrow> 1 \<le> unat i \<and> unat i \<le> unat (recordCounter s))
     \<and> (exists (records s i) \<longrightarrow> recordId (records s i) = i)
     \<and> (\<forall>s' rid. createRecord s now sender h t d = Inr (s', rid) \<longrightarrow>
          unat rid = Suc (unat (recordCounter s)) \<and> recordCounter s' = rid \<and>
          \<not> exists (records s rid) \<and>
          records s' rid =
            \<lparr>recordId = rid, patientAddress = sender, ipfsHash = h, recordType = t,
             description = d, timestamp = now, exists = True\<rparr>)
     \<and> (exists (records s i) \<longrightarrow>
          records (transact s now' sender' c) i = records s i \<and>
          records (run s tr) i = records s i)
     \<and> map unat (createdIds s tr) =
          [Suc (unat (recordCounter s)) ..<
           Suc (unat (recordCounter s)) + length (createdIds s tr)]
     \<and> distinct (createdIds s tr)
     \<and> map unat (createdIds (constructor deployer t0) tr) =
          [1 ..< Suc (length (createdIds (constructor deployer t0) tr))]"
proof -
  from assms have wf: "wellFormed s" by (rule reachable_wellFormed)
  have ex: "exists (records s j) \<longleftrightarrow> 1 \<le> unat j \<and> unat j \<le> unat (recordCounter s)" for j
    using wf by (auto simp: wellFormed_def word_less_nat_alt word_le_nat_alt)
  have idk: "exists (records s i) \<longrightarrow> recordId (records s i) = i"
    using wf by (simp add: wellFormed_def)
  have cr: "\<forall>s' rid. createRecord s now sender h t d = Inr (s', rid) \<longrightarrow>
          unat rid = Suc (unat (recordCounter s)) \<and> recordCounter s' = rid \<and>
          \<not> exists (records s rid) \<and>
          records s' rid =
            \<lparr>recordId = rid, patientAddress = sender, ipfsHash = h, recordType = t,
             description = d, timestamp = now, exists = True\<rparr>"
  proof (intro allI impI)
    fix s' rid
    assume c: "createRecord s now sender h t d = Inr (s', rid)"
    from createRecord_Inr(1-3) [OF c] ex [of rid]
    show "unat rid = Suc (unat (recordCounter s)) \<and> recordCounter s' = rid \<and>
          \<not> exists (records s rid) \<and>
          records s' rid =
            \<lparr>recordId = rid, patientAddress = sender, ipfsHash = h, recordType = t,
             description = d, timestamp = now, exists = True\<rparr>"
      by simp
  qed
  have st: "exists (records s i) \<longrightarrow>
          records (transact s now' sender' c) i = records s i \<and>
          records (run s tr) i = records s i"
    using wf by (simp add: transact_records run_records)
  have dense: "map unat (createdIds s' tr) =
          [Suc (unat (recordCounter s')) ..<
           Suc (unat (recordCounter s')) + length (createdIds s' tr)]" for s'
    using createdIds_dense [of s' tr] by (rule conjunct1)
  have "distinct (map unat (createdIds s tr))"
    unfolding dense [of s] by simp
  then have di: "distinct (createdIds s tr)"
    by (simp add: distinct_map)
  have "recordCounter (constructor deployer t0) = 0"
    by (simp add: constructor_def)
  with dense [of "constructor deployer t0"]
  have c0: "map unat (createdIds (constructor deployer t0) tr) =
          [1 ..< Suc (length (createdIds (constructor deployer t0) tr))]"
    by simp
  show ?thesis
    using ex [of i] idk cr st dense [of s] di c0
    by - (intro conjI; assumption)
qed

theorem record_ids_dense_and_stable_witness:
  "reachable demoBase \<and> exists (records demoBase 1) \<and> recordCounter demoBase = 1 \<and>
   createdIds (constructor 1 1000) demoTrace = [1] \<and>
   createdIds demoBase demoMore = [2, 3] \<and>
   records (run demoBase demoMore) 1 =
     \<lparr>recordId = 1, patientAddress = 2, ipfsHash = ''Qm123'', recordType = ''X-Ray'',
      description = ''chest'', timestamp = 1004, exists = True\<rparr>"
  using demoBase_reachable
    record_ids_dense_and_stable [OF demoBase_reachable, of 1 2000 2 "''QmA''"
      "''Lab Report''" "''blood''" 2000 2 GetStats demoMore 1 1000]
    demoBase_created demoMore_created
  by (simp add: demoBase_state)

text \<open>
  C7. In a reachable state, the entry of a registered user (role and registered flag
  included) is left as it is by every transaction, and its role by every run; a
  \<open>registerUser\<close> call of a registered identity fails with \<open>AlreadyRegistered\<close>,
  whatever its arguments; a successful registration assigns the role asked for,
  Patient or Doctor; the users with role Admin are exactly \<open>admin\<close>, which is
  registered, never changes and is the deployer.
\<close>

theorem role_immutable:
  assumes "reachable s"
  shows "(isRegistered (users s a) \<longrightarrow>
          users (transact s now sender c) a = users s a \<and>
          role (users (run s tr) a) = role (users s a) \<and>
          isRegistered (users (run s tr) a))
     \<and> (isRegistered (users s sender) \<longrightarrow>
          registerUser s now sender n r = Inl AlreadyRegistered)
     \<and> (\<forall>s'. registerUser s now sender n r = Inr s' \<longrightarrow>
          role (users s' sender) = r \<and> isRegistered (users s' sender) \<and>
          (r = Patient \<or> r = Doctor))
     \<and> (role (users s a) = Admin \<longleftrightarrow> a = admin s)
     \<and> isRegistered (users s (admin s))
     \<and> admin (transact s now sender c) = admin s
     \<and> admin (run s tr) = admin s
     \<and> admin (run (constructor deployer t0) tr) = deployer"
proof -
  from assms have wf: "wellFormed s" by (rule reachable_wellFormed)
  then have adm: "role (users s b) = Admin \<longleftrightarrow> b = admin s" for b
    by (simp add: wellFormed_def)
  from wf have "role (users s (admin s)) \<noteq> NoneRole \<longrightarrow> isRegistered (users s (admin s))"
    unfolding wellFormed_def by blast
  with adm [of "admin s"] have ra: "isRegistered (users s (admin s))"
    by simp
  have keep: "isRegistered (users s a) \<longrightarrow>
          users (transact s now sender c) a = users s a \<and>
          role (users (run s tr) a) = role (users s a) \<and>
          isRegistered (users (run s tr) a)"
    by (simp add: transact_users run_users)
  have again: "isRegistered (users s sender) \<longrightarrow>
          registerUser s now sender n r = Inl AlreadyRegistered"
    by (simp add: registerUser_def)
  have reg: "\<forall>s'. registerUser s now sender n r = Inr s' \<longrightarrow>
          role (users s' sender) = r \<and> isRegistered (users s' sender) \<and>
          (r = Patient \<or> r = Doctor)"
  proof (intro allI impI)
    fix s'
    assume "registerUser s now sender n r = Inr s'"
    from registerUser_Inr(1,10) [OF this]
    show "role (users s' sender) = r \<and> isRegistered (users s' sender) \<and>
          (r = Patient \<or> r = Doctor)"
      by simp
  qed
  have "admin (constructor deployer t0) = deployer"
    by (simp add: constructor_def)
  then have dep: "admin (run (constructor deployer t0) tr) = deployer"
    by (simp add: run_admin)
  show ?thesis
    using keep again reg adm [of a] ra transact_admin [of s now sender c]
      run_admin [of s tr] dep
    by - (intro conjI; assumption)
qed

theorem role_immutable_witness:
  "reachable demoBase \<and> isRegistered (users demoBase 2) \<and>
   role (users demoBase 2) = Patient \<and>
   registerUser demoBase 2000 2 ''Pat'' Doctor = Inl AlreadyRegistered \<and>
   role (users (transact demoBase 2000 2 (RegisterUser ''Pat'' Doctor)) 2) = Patient \<and>
   role (users (run demoBase demoMore) 2) = Patient \<and>
   admin demoBase = 1 \<and> role (users demoBase 1) = Admin \<and>
   registerUser demoBase 2000 1 ''Root'' Patient = Inl AlreadyRegistered \<and>
   admin (run demoBase demoMore) = 1"
  using demoBase_reachable
    role_immutable [OF demoBase_reachable, of 2 2000 2 "RegisterUser ''Pat'' Doctor"
      demoMore "''Pat''" Doctor 1 1000]
    role_immutable [OF demoBase_reachable, of 1 2000 1 "RegisterUser ''Root'' Patient"
      demoMore "''Root''" Patient 1 1000]
  by (simp add: demoBase_state)

text \<open>
  C8. For every actor, a transaction appends to the audit trail of the actor exactly
  the entries that the actor logged by it and leaves the entries before them as
  they are; after a run from the constructor \<open>getAuditTrail\<close> is the sequence of the
  logged actions of the actor in the order of the run, its length is the number of
  successful CREATE, GRANT_ACCESS and REVOKE_ACCESS actions of the actor, and every
  entry has one of these three kinds; \<open>getRecord\<close>, \<open>registerUser\<close> and
  \<open>checkAccess\<close> append nothing, so no VIEW entry is ever written.
\<close>

theorem audit_trail_append_only:
  "getAuditTrail (transact s now sender c) a =
     getAuditTrail s a @ (if sender = a then loggedEntries s now sender c else [])
   \<and> getAuditTrail (run s tr) a = getAuditTrail s a @ expectedTrail s tr a
   \<and> getAuditTrail (run (constructor deployer t0) tr) a =
       expectedTrail (constructor deployer t0) tr a
   \<and> length (getAuditTrail (run (constructor deployer t0) tr) a) =
       loggedActions (constructor deployer t0) tr a
   \<and> (\<forall>e \<in> set (getAuditTrail (run (constructor deployer t0) tr) a).
        accessor e = a \<and> action e \<in> {''CREATE'', ''GRANT_ACCESS'', ''REVOKE_ACCESS''})
   \<and> getAuditTrail (transact s now sender (GetRecord i)) a = getAuditTrail s a
   \<and> getAuditTrail (transact s now sender (RegisterUser n r)) a = getAuditTrail s a
   \<and> getAuditTrail (transact s now sender (CheckAccess p d)) a = getAuditTrail s a"
proof -
  have one: "getAuditTrail (transact s now sender c) a =
     getAuditTrail s a @ (if sender = a then loggedEntries s now sender c else [])"
    unfolding getAuditTrail_def by (rule transact_auditTrails)
  have many: "getAuditTrail (run s tr) a = getAuditTrail s a @ expectedTrail s tr a"
    unfolding getAuditTrail_def by (rule run_auditTrails)
  have t0: "getAuditTrail (run (constructor deployer t0) tr) a =
       expectedTrail (constructor deployer t0) tr a"
    by (simp add: getAuditTrail_def run_auditTrails auditTrails_constructor)
  have len: "length (getAuditTrail (run (constructor deployer t0) tr) a) =
       loggedActions (constructor deployer t0) tr a"
    unfolding t0 by (rule length_expectedTrail)
  have kind: "\<forall>e \<in> set (getAuditTrail (run (constructor deployer t0) tr) a).
        accessor e = a \<and> action e \<in> {''CREATE'', ''GRANT_ACCESS'', ''REVOKE_ACCESS''}"
    unfolding t0 using expectedTrail_kind by blast
  have nolog: "loggedEntries s now x (GetRecord i) = []"
     "loggedEntries s now x (RegisterUser n r) = []"
     "loggedEntries s now x (CheckAccess p d) = []" for x
    by (simp_all add: loggedEntries_def split: sum.splits)
  have v1: "getAuditTrail (transact s now sender (GetRecord i)) a = getAuditTrail s a"
    and v2: "getAuditTrail (transact s now sender (RegisterUser n r)) a = getAuditTrail s a"
    and v3: "getAuditTrail (transact s now sender (CheckAccess p d)) a = getAuditTrail s a"
    by (simp_all add: getAuditTrail_def transact_auditTrails nolog)
  show ?thesis
    using one many t0 len kind v1 v2 v3
    by - (intro conjI; assumption)
qed

theorem audit_trail_append_only_witness:
  "getAuditTrail (run (constructor 1 1000) demoTrace) 2 =
     [\<lparr>accessor = 2, logRecordId = 1, logTimestamp = 1004, action = ''CREATE''\<rparr>] \<and>
   loggedActions (constructor 1 1000) demoTrace 2 = 1 \<and>
   getRecord demoGranted 1006 3 1 = Inr (2, ''Qm123'', ''X-Ray'', ''chest'', 1004) \<and>
   getAuditTrail (transact demoGranted 1006 3 (GetRecord 1)) 3 = [] \<and>
   getAuditTrail (transact demoGranted 90000 2 (RevokeAccess 3)) 2 =
     [\<lparr>accessor = 2, logRecordId = 1, logTimestamp = 1004, action = ''CREATE''\<rparr>,
      \<lparr>accessor = 2, logRecordId = 0, logTimestamp = 1005, action = ''GRANT_ACCESS''\<rparr>,
      \<lparr>accessor = 2, logRecordId = 0, logTimestamp = 90000, action = ''REVOKE_ACCESS''\<rparr>]"
  using audit_trail_append_only [of "constructor 1 1000" 1000 1 GetStats 2 demoTrace 1 1000]
    audit_trail_append_only [of demoGranted 1006 3 "GetRecord 1" 3 "[]" 1 1000 1]
    audit_trail_append_only [of demoGranted 90000 2 "RevokeAccess 3" 2 "[]" 1 1000]
    demoTrace_logged
  by (simp add: demoBase_def [symmetric] demoBase_state demoGranted_state getAuditTrail_def
        loggedEntries_def revokeAccess_def getRecord_def hasAccess_def addAuditLog_def
        Let_def)

text \<open>
  C9. In a reachable state a user whose role is Doctor is registered, so
  \<open>grantAccess\<close> never fails with \<open>GranteeNotRegistered\<close>: the check of the role of
  the grantee, which comes first, has already failed with \<open>GranteeNotDoctor\<close> for
  every unregistered grantee.
\<close>

theorem grantAccess_grantee_registered:
  assumes "reachable s"
  shows "(role (users s doctor) = Doctor \<longrightarrow> isRegistered (users s doctor))
       \<and> grantAccess s now sender doctor dur p \<noteq> Inl GranteeNotRegistered"
proof -
  from assms have "wellFormed s" by (rule reachable_wellFormed)
  then have "role (users s doctor) \<noteq> NoneRole \<longrightarrow> isRegistered (users s doctor)"
    unfolding wellFormed_def by blast
  then show ?thesis
    by (auto simp: grantAccess_def Let_def split: option.splits)
qed

theorem grantAccess_grantee_registered_witness:
  "reachable demoBase \<and> role (users demoBase 3) = Doctor \<and>
   isRegistered (users demoBase 3) \<and>
   grantAccess demoBase 1005 2 3 86400 ''checkup'' \<noteq> Inl GranteeNotRegistered \<and>
   grantAccess demoBase 1005 2 9 86400 ''checkup'' = Inl GranteeNotDoctor"
  using demoBase_reachable
    grantAccess_grantee_registered [OF demoBase_reachable, of 3 1005 2 86400 "''checkup''"]
  by (simp add: demoBase_state grantAccess_def zeroUser_def)

text \<open>
  C10. \<open>revokeAccess\<close> requires the caller to be registered and to have the role
  Patient: for an unregistered caller it fails with \<open>NotRegistered\<close> and for a
  registered caller of another role with \<open>OnlyPatients\<close>, whatever the table of
  grants holds, so before the active flag is read; the state after the transaction
  is the state before it; and in a reachable state neither a Doctor nor the admin can
  revoke.
\<close>

theorem revokeAccess_caller_guards:
  "(\<not> isRegistered (users s sender) \<longrightarrow>
      revokeAccess (s\<lparr>permissions := perms\<rparr>) now sender doctor = Inl NotRegistered)
   \<and> (isRegistered (users s sender) \<and> role (users s sender) \<noteq> Patient \<longrightarrow>
      revokeAccess (s\<lparr>permissions := perms\<rparr>) now sender doctor = Inl OnlyPatients)
   \<and> (\<not> isRegistered (users s sender) \<or> role (users s sender) \<noteq> Patient \<longrightarrow>
      transact s now sender (RevokeAccess doctor) = s)
   \<and> (reachable s \<and> (role (users s sender) = Doctor \<or> sender = admin s) \<longrightarrow>
      revokeAccess s now sender doctor = Inl OnlyPatients)"
proof -
  have "role (users s sender) = Admin \<and> isRegistered (users s sender)"
    if "reachable s" and "sender = admin s"
  proof -
    from that(1) have wf: "wellFormed s" by (rule reachable_wellFormed)
    then have "role (users s sender) = Admin"
      using that(2) by (simp add: wellFormed_def)
    moreover from wf have
      "role (users s sender) \<noteq> NoneRole \<longrightarrow> isRegistered (users s sender)"
      unfolding wellFormed_def by blast
    ultimately show ?thesis by simp
  qed
  moreover have "isRegistered (users s sender)"
    if "reachable s" and "role (users s sender) = Doctor"
  proof -
    from that(1) have "wellFormed s" by (rule reachable_wellFormed)
    then have "role (users s sender) \<noteq> NoneRole \<longrightarrow> isRegistered (users s sender)"
      unfolding wellFormed_def by blast
    with that(2) show ?thesis by simp
  qed
  ultimately show ?thesis
    by (auto simp: revokeAccess_def transact_def)
qed

theorem revokeAccess_caller_guards_witness:
  "reachable demoGranted \<and> isActive (permissions demoGranted 2 3) \<and>
   \<not> isRegistered (users demoGranted 9) \<and>
   revokeAccess demoGranted 2000 9 3 = Inl NotRegistered \<and>
   role (users demoGranted 3) = Doctor \<and>
   revokeAccess demoGranted 2000 3 3 = Inl OnlyPatients \<and>
   admin demoGranted = 1 \<and>
   revokeAccess demoGranted 2000 1 3 = Inl OnlyPatients \<and>
   transact demoGranted 2000 1 (RevokeAccess 3) = demoGranted"
  using demoGranted_reachable
    revokeAccess_caller_guards [of demoGranted 9 "permissions demoGranted" 2000 3]
    revokeAccess_caller_guards [of demoGranted 3 "permissions demoGranted" 2000 3]
    revokeAccess_caller_guards [of demoGranted 1 "permissions demoGranted" 2000 3]
  by (simp add: demoGranted_state demoBase_state zeroUser_def)

end
